theory Spec2Isabelle
  imports Main "HOL-Library.Sublist"
begin

section \<open>Python values of \<^verbatim>\<open>ldap_pomes.py\<close>\<close>

text \<open>
  A \<^verbatim>\<open>bytes\<close> value and a \<^verbatim>\<open>str\<close> value are both lists of characters; the
  conversions between them (\<^verbatim>\<open>str.encode\<close>, \<^verbatim>\<open>bytes.decode\<close>) belong to the
  Python runtime and are fields of the library record below.
\<close>

type_synonym bytes = string

text \<open>
  \<^verbatim>\<open>trace_filepath\<close> is annotated \<^verbatim>\<open>Path\<close> but matched against string literals, so
  both kinds of value are kept apart: a \<^verbatim>\<open>pathlib.Path\<close> never equals a \<^verbatim>\<open>str\<close>.
\<close>

datatype filepath = StrPath string | PathObj string

datatype trace_out = Stdout | Stderr | TraceFile filepath

text \<open>
  An exception. \<open>LDAPError cls args\<close> is an \<^verbatim>\<open>ldap.LDAPError\<close> of class \<open>cls\<close>; of its
  \<^verbatim>\<open>args\<close> the module reads \<^verbatim>\<open>args[0]\<close> and expects a dictionary there: \<open>NoArgs\<close> is
  the empty tuple, \<open>NotDict\<close> a first argument that is no dictionary, and
  \<open>ErrData code desc info\<close> a dictionary, \<open>code\<close> and \<open>desc\<close> being its \<^verbatim>\<open>result\<close> and
  \<^verbatim>\<open>desc\<close> entries as an f-string prints them (\<^verbatim>\<open>None\<close> when missing) and \<open>info\<close> its
  \<^verbatim>\<open>info\<close> entry. \<open>PyError txt\<close> is any other exception, \<open>txt\<close> being the text
  \<^verbatim>\<open>pypomes_core.exc_format\<close> gives for it.
\<close>

datatype ldap_args = NoArgs | NotDict | ErrData string string "string option"

datatype exc = LDAPError string ldap_args | PyError string

definition attribute_error :: exc where
  "attribute_error = PyError ''AttributeError''"

definition index_error :: exc where
  "index_error = PyError ''IndexError''"

definition type_error :: exc where
  "type_error = PyError ''TypeError''"

text \<open>Constants of \<^verbatim>\<open>python-ldap\<close> the module names.\<close>

definition SCOPE_BASE :: int where "SCOPE_BASE = 0"
definition SCOPE_ONELEVEL :: int where "SCOPE_ONELEVEL = 1"
definition SCOPE_SUBTREE :: int where "SCOPE_SUBTREE = 2"

definition MOD_ADD :: int where "MOD_ADD = 0"
definition MOD_DELETE :: int where "MOD_DELETE = 1"
definition MOD_REPLACE :: int where "MOD_REPLACE = 2"

datatype ldap_option = OPT_PROTOCOL_VERSION | OPT_REFERRALS | OPT_TIMEOUT

type_synonym modlist = "(int \<times> string \<times> bytes option) list"
type_synonym add_modlist = "(string \<times> bytes list) list"
type_synonym add_attrs = "(string \<times> bytes list option) list"
type_synonym attr_dict = "string \<rightharpoonup> bytes list"
type_synonym search_data = "(string \<times> attr_dict) list"

text \<open>Python truth of an optional sequence: \<^verbatim>\<open>None\<close> and the empty sequence are false.\<close>

fun py_truthy :: "'a list option \<Rightarrow> bool" where
  "py_truthy None = False"
| "py_truthy (Some xs) = (xs \<noteq> [])"

text \<open>\<^verbatim>\<open>x or d\<close> for an optional string and for an optional integer.\<close>

fun py_or_str :: "string option \<Rightarrow> string \<Rightarrow> string" where
  "py_or_str None d = d"
| "py_or_str (Some x) d = (if x = [] then d else x)"

fun py_or_int :: "int option \<Rightarrow> int \<Rightarrow> int" where
  "py_or_int None d = d"
| "py_or_int (Some x) d = (if x = 0 then d else x)"

text \<open>\<^verbatim>\<open>f"{x}"\<close> for an optional string: \<^verbatim>\<open>None\<close> prints as \<^verbatim>\<open>None\<close>.\<close>

fun py_format :: "string option \<Rightarrow> string" where
  "py_format None = ''None''"
| "py_format (Some x) = x"

section \<open>Configuration, the client object and the outside world\<close>

text \<open>The module's global constants, read once from the environment (lines 12-23).\<close>

record config =
  LDAP_BASE_DN :: "string option"
  LDAP_BIND_DN :: "string option"
  LDAP_BIND_PWD :: "string option"
  LDAP_SERVER_URI :: "string option"
  LDAP_TIMEOUT :: int
  LDAP_TRACE_FILEPATH :: "filepath option"
  LDAP_TRACE_LEVEL :: "int option"

text \<open>
  The two private attributes of \<^verbatim>\<open>LDAPObject\<close> the module reads: \<^verbatim>\<open>_uri\<close> and
  \<^verbatim>\<open>_trace_file\<close>, as \<^verbatim>\<open>ldap.initialize\<close> stores them.
\<close>

record ldap_object =
  obj_uri :: "string option"
  obj_trace_file :: trace_out

text \<open>Every call the module makes into \<^verbatim>\<open>python-ldap\<close> or the file system.\<close>

datatype call =
    PathOpen filepath
  | Initialize "string option" int trace_out
  | SetOption ldap_option int
  | SimpleBindS "string option" "string option"
  | UnbindS
  | TraceClose
  | AddS string add_modlist
  | ModifyS string modlist
  | DeleteS string
  | SearchS string int string "string list" int
  | PasswdS string "string option" string

text \<open>
  The outside world is a parameter. Given the calls made so far, \<open>raises\<close> says whether
  the next call raises; \<open>search_s\<close> and \<open>passwd_s\<close> give what a call that does not raise
  returns. \<open>addModlist\<close>, \<open>str_encode\<close> and \<open>bytes_decode\<close> are pure library functions,
  each of which may raise. The \<^verbatim>\<open>attrs\<close> dictionary of \<^verbatim>\<open>ldap_add_entry\<close> is a list of
  pairs whose values may be \<^verbatim>\<open>None\<close>, on which \<^verbatim>\<open>addModlist\<close> raises.
\<close>

record ldap_lib =
  raises :: "call list \<Rightarrow> call \<Rightarrow> exc option"
  search_s :: "call list \<Rightarrow> call \<Rightarrow> search_data"
  passwd_s :: "call list \<Rightarrow> call \<Rightarrow> bytes"
  addModlist :: "add_attrs \<Rightarrow> exc + add_modlist"
  str_encode :: "string \<Rightarrow> exc + bytes"
  bytes_decode :: "bytes \<Rightarrow> exc + string"

text \<open>
  The state an operation threads: the caller's \<^verbatim>\<open>errors\<close> list, which every function
  mutates in place, and the calls made so far.
\<close>

record state =
  errors :: "string list"
  trace :: "call list"

definition err :: "string \<Rightarrow> state \<Rightarrow> state" where
  "err msg s = s\<lparr>errors := errors s @ [msg]\<rparr>"

definition invoke :: "ldap_lib \<Rightarrow> call \<Rightarrow> state \<Rightarrow> exc option \<times> state" where
  "invoke lib c s = (raises lib (trace s) c, s\<lparr>trace := trace s @ [c]\<rparr>)"

text \<open>
  A method call on the client object: on \<^verbatim>\<open>None\<close> the attribute lookup raises before
  anything reaches the library.
\<close>

definition method_call ::
  "ldap_lib \<Rightarrow> ldap_object option \<Rightarrow> call \<Rightarrow> state \<Rightarrow> exc option \<times> state" where
  "method_call lib client c s =
     (case client of None \<Rightarrow> (Some attribute_error, s) | Some obj \<Rightarrow> invoke lib c s)"

section \<open>Error messages\<close>

text \<open>
  \<^verbatim>\<open>__ldap_except_msg\<close> (lines 543-556). For an \<^verbatim>\<open>ldap.LDAPError\<close> line 546 indexes
  \<^verbatim>\<open>exc.args\<close> and line 549 calls \<^verbatim>\<open>.get\<close> on the result, so the function itself
  raises when the arguments are empty or the first is no dictionary.
\<close>

fun ldap_except_msg :: "exc \<Rightarrow> exc + string" where
  "ldap_except_msg (LDAPError cls NoArgs) = Inl index_error"
| "ldap_except_msg (LDAPError cls NotDict) = Inl attribute_error"
| "ldap_except_msg (LDAPError cls (ErrData code desc info)) =
     (let result = [CHR 0x27] @ ''Type: '' @ cls @ ''; Code: '' @ code @ ''; Msg: '' @ desc @ [CHR 0x27]
      in case info of
           None \<Rightarrow> Inr result
         | Some i \<Rightarrow>
             if i \<noteq> [] then Inr (butlast result @ ''; Info: '' @ i @ [CHR 0x27]) else Inr result)"
| "ldap_except_msg (PyError txt) = Inr txt"

text \<open>
  An \<^verbatim>\<open>except Exception as e\<close> clause of the module: it appends the message built from
  \<open>e\<close> to \<^verbatim>\<open>errors\<close>. When \<^verbatim>\<open>__ldap_except_msg\<close> raises, nothing is appended and that
  exception leaves the function the clause is in: the first component.
\<close>

definition handler :: "string \<Rightarrow> exc \<Rightarrow> state \<Rightarrow> exc option \<times> state" where
  "handler intro e s =
     (case ldap_except_msg e of
        Inl raised \<Rightarrow> (Some raised, s)
      | Inr msg \<Rightarrow> (None, err (intro @ msg) s))"

text \<open>What a function gives after its handler ran: \<open>r\<close>, unless the handler raised.\<close>

definition handled :: "'a \<Rightarrow> exc option \<times> state \<Rightarrow> (exc + 'a) \<times> state" where
  "handled r h = (case h of (Some raised, s) \<Rightarrow> (Inl raised, s) | (None, s) \<Rightarrow> (Inr r, s))"

definition init_intro :: string where
  "init_intro = ''Error initializing the LDAP client: ''"

definition bind_intro :: string where
  "bind_intro = ''Error binding with the LDAP server: ''"

definition unbind_intro :: string where
  "unbind_intro = ''Error unbinding with the LDAP server: ''"

definition add_intro :: string where
  "add_intro = ''Error on the LDAP add entry operation: ''"

definition modify_intro :: string where
  "modify_intro = ''Error on the LDAP modify entry operation: ''"

definition delete_intro :: string where
  "delete_intro = ''Error on the LDAP delete entry operation: ''"

definition search_intro :: string where
  "search_intro = ''Error on the LDAP search operation: ''"

definition pwd_intro :: string where
  "pwd_intro = ''Error on the LDAP password change operation: ''"

definition not_found_msg :: "string \<Rightarrow> string" where
  "not_found_msg user_id =
     ''Error on the LDAP modify user operation: User '' @ [CHR 0x27] @ user_id @ [CHR 0x27] @ '' not found''"

section \<open>Initialising, binding and unbinding\<close>

text \<open>
  Every function returns its result together with the state it leaves. A result
  \<open>Inl e\<close> is an exception \<open>e\<close> that leaves the function; \<open>Inr r\<close> is the value returned.

  The \<^verbatim>\<open>match\<close> statement of \<^verbatim>\<open>ldap_init\<close> (lines 45-51): the trace device is
  standard output, standard error, or the file opened in append mode. An exception of
  the \<^verbatim>\<open>open\<close> is given back for the \<^verbatim>\<open>except\<close> clause of \<^verbatim>\<open>ldap_init\<close>.
\<close>

definition open_trace ::
  "ldap_lib \<Rightarrow> filepath option \<Rightarrow> state \<Rightarrow> (exc + trace_out) \<times> state" where
  "open_trace lib trace_filepath s =
     (case trace_filepath of
        None \<Rightarrow> (Inr Stdout, s)
      | Some p \<Rightarrow>
          if p = StrPath ''sys.stdout'' then (Inr Stdout, s)
          else if p = StrPath ''sys.stderr'' then (Inr Stderr, s)
          else (case invoke lib (PathOpen p) s of
                  (Some e, s1) \<Rightarrow> (Inl e, s1)
                | (None, s1) \<Rightarrow> (Inr (TraceFile p), s1)))"

text \<open>The three \<^verbatim>\<open>set_option\<close> calls (lines 61-66); the first to raise ends them.\<close>

definition configure :: "ldap_lib \<Rightarrow> config \<Rightarrow> state \<Rightarrow> exc option \<times> state" where
  "configure lib cfg s =
     (case invoke lib (SetOption OPT_PROTOCOL_VERSION 3) s of
        (Some e, s1) \<Rightarrow> (Some e, s1)
      | (None, s1) \<Rightarrow>
          (case invoke lib (SetOption OPT_REFERRALS 0) s1 of
             (Some e, s2) \<Rightarrow> (Some e, s2)
           | (None, s2) \<Rightarrow> invoke lib (SetOption OPT_TIMEOUT (LDAP_TIMEOUT cfg)) s2))"

text \<open>
  \<^verbatim>\<open>ldap_init\<close> (lines 26-70). \<open>trace_level = None\<close> stands for a value that is not an
  \<^verbatim>\<open>int\<close>. The value returned is \<^verbatim>\<open>None\<close> when opening the trace file or
  \<^verbatim>\<open>ldap.initialize\<close> raised; when a \<^verbatim>\<open>set_option\<close> raised, the client object is
  returned all the same, with the message recorded.
\<close>

definition ldap_init ::
  "ldap_lib \<Rightarrow> config \<Rightarrow> string option \<Rightarrow> filepath option \<Rightarrow> int option \<Rightarrow> state
     \<Rightarrow> (exc + ldap_object option) \<times> state" where
  "ldap_init lib cfg server_uri trace_filepath trace_level s =
     (case open_trace lib trace_filepath s of
        (Inl e, s1) \<Rightarrow> handled None (handler init_intro e s1)
      | (Inr trace_out, s1) \<Rightarrow>
          (let level = (case trace_level of None \<Rightarrow> 0 | Some n \<Rightarrow> n) in
           case invoke lib (Initialize server_uri level trace_out) s1 of
             (Some e, s2) \<Rightarrow> handled None (handler init_intro e s2)
           | (None, s2) \<Rightarrow>
               (let result = \<lparr>obj_uri = server_uri, obj_trace_file = trace_out\<rparr> in
                case configure lib cfg s2 of
                  (Some e, s3) \<Rightarrow> handled (Some result) (handler init_intro e s3)
                | (None, s3) \<Rightarrow> (Inr (Some result), s3))))"

text \<open>\<^verbatim>\<open>ldap_init(errors)\<close> with the defaults of its signature, as every operation calls it.\<close>

definition ldap_init_default ::
  "ldap_lib \<Rightarrow> config \<Rightarrow> state \<Rightarrow> (exc + ldap_object option) \<times> state" where
  "ldap_init_default lib cfg s =
     ldap_init lib cfg (LDAP_SERVER_URI cfg) (LDAP_TRACE_FILEPATH cfg) (LDAP_TRACE_LEVEL cfg) s"

text \<open>\<^verbatim>\<open>ldap_bind\<close> (lines 73-97).\<close>

definition ldap_bind ::
  "ldap_lib \<Rightarrow> ldap_object option \<Rightarrow> string option \<Rightarrow> string option \<Rightarrow> state
     \<Rightarrow> (exc + bool) \<times> state" where
  "ldap_bind lib ldap_client bind_dn bind_pwd s =
     (case method_call lib ldap_client (SimpleBindS bind_dn bind_pwd) s of
        (None, s1) \<Rightarrow> (Inr True, s1)
      | (Some e, s1) \<Rightarrow> handled False (handler bind_intro e s1))"

text \<open>
  The \<^verbatim>\<open>name\<close> of the trace device: \<^verbatim>\<open><stdout>\<close> or \<^verbatim>\<open><stderr>\<close> for the standard
  streams, and for a file the path it was opened with, as a string.
\<close>

fun path_str :: "filepath \<Rightarrow> string" where
  "path_str (StrPath p) = p"
| "path_str (PathObj p) = p"

fun std_device :: "trace_out \<Rightarrow> bool" where
  "std_device Stdout = True"
| "std_device Stderr = True"
| "std_device (TraceFile p) = (path_str p = ''<stdout>'' \<or> path_str p = ''<stderr>'')"

text \<open>\<^verbatim>\<open>ldap_unbind\<close> (lines 100-117).\<close>

definition ldap_unbind :: "ldap_lib \<Rightarrow> ldap_object option \<Rightarrow> state \<Rightarrow> (exc + unit) \<times> state" where
  "ldap_unbind lib ldap_client s =
     (case method_call lib ldap_client UnbindS s of
        (Some e, s1) \<Rightarrow> handled () (handler unbind_intro e s1)
      | (None, s1) \<Rightarrow>
          (case ldap_client of
             None \<Rightarrow> (Inr (), s1)
           | Some obj \<Rightarrow>
               if \<not> std_device (obj_trace_file obj) then
                 (case invoke lib TraceClose s1 of
                    (Some e, s2) \<Rightarrow> handled () (handler unbind_intro e s2)
                  | (None, s2) \<Rightarrow> (Inr (), s2))
               else (Inr (), s1)))"

text \<open>
  The bind of the operations that use the default credentials: none when no client
  object was obtained (\<^verbatim>\<open>bound\<close> stays \<^verbatim>\<open>False\<close>).
\<close>

definition bind_default ::
  "ldap_lib \<Rightarrow> config \<Rightarrow> ldap_object option \<Rightarrow> state \<Rightarrow> (exc + bool) \<times> state" where
  "bind_default lib cfg ldap_client s =
     (case ldap_client of
        None \<Rightarrow> (Inr False, s)
      | Some obj \<Rightarrow> ldap_bind lib ldap_client (LDAP_BIND_DN cfg) (LDAP_BIND_PWD cfg) s)"

text \<open>The last statement of every operation: \<^verbatim>\<open>if bound: ldap_unbind(...)\<close>.\<close>

definition unbind_if ::
  "ldap_lib \<Rightarrow> ldap_object option \<Rightarrow> bool \<Rightarrow> state \<Rightarrow> (exc + unit) \<times> state" where
  "unbind_if lib ldap_client bound s =
     (if bound then ldap_unbind lib ldap_client s else (Inr (), s))"

section \<open>Directory operations\<close>

text \<open>
  Each operation is written as in the source: obtain the client object, bind it, run
  the action when \<^verbatim>\<open>errors\<close> is empty, unbind when bound. An exception that leaves one
  step leaves the operation there, the later steps not run. The actions are definitions
  of their own.
\<close>

text \<open>
  The action of \<^verbatim>\<open>ldap_add_entry\<close> (lines 142-147). \<^verbatim>\<open>addModlist\<close> is called before the
  \<^verbatim>\<open>try\<close>: an exception it raises is not caught.
\<close>

definition add_action ::
  "ldap_lib \<Rightarrow> ldap_object option \<Rightarrow> string \<Rightarrow> add_attrs \<Rightarrow> state \<Rightarrow> (exc + unit) \<times> state" where
  "add_action lib ldap_client entry_dn attrs s =
     (case addModlist lib attrs of
        Inl e \<Rightarrow> (Inl e, s)
      | Inr ldiff \<Rightarrow>
          (case method_call lib ldap_client (AddS entry_dn ldiff) s of
             (Some e, s') \<Rightarrow> handled () (handler add_intro e s')
           | (None, s') \<Rightarrow> (Inr (), s')))"

text \<open>\<^verbatim>\<open>ldap_add_entry\<close> (lines 120-152).\<close>

definition ldap_add_entry ::
  "ldap_lib \<Rightarrow> config \<Rightarrow> string \<Rightarrow> add_attrs \<Rightarrow> state \<Rightarrow> (exc + unit) \<times> state" where
  "ldap_add_entry lib cfg entry_dn attrs s =
     (case ldap_init_default lib cfg s of
        (Inl e, s1) \<Rightarrow> (Inl e, s1)
      | (Inr ldap_client, s1) \<Rightarrow>
     (case bind_default lib cfg ldap_client s1 of
        (Inl e, s2) \<Rightarrow> (Inl e, s2)
      | (Inr bound, s2) \<Rightarrow>
     (case (if errors s2 = [] then add_action lib ldap_client entry_dn attrs s2 else (Inr (), s2)) of
        (Inl e, s3) \<Rightarrow> (Inl e, s3)
      | (Inr result, s3) \<Rightarrow>
     (case unbind_if lib ldap_client bound s3 of
        (Inl e, s4) \<Rightarrow> (Inl e, s4)
      | (Inr u, s4) \<Rightarrow> (Inr result, s4)))))"

text \<open>The action of \<^verbatim>\<open>ldap_modify_entry\<close> (lines 177-181).\<close>

definition modify_action ::
  "ldap_lib \<Rightarrow> ldap_object option \<Rightarrow> string \<Rightarrow> modlist \<Rightarrow> state \<Rightarrow> (exc + unit) \<times> state" where
  "modify_action lib conn entry_dn mod_entry s =
     (case method_call lib conn (ModifyS entry_dn mod_entry) s of
        (Some e, s') \<Rightarrow> handled () (handler modify_intro e s')
      | (None, s') \<Rightarrow> (Inr (), s'))"

text \<open>\<^verbatim>\<open>ldap_modify_entry\<close> (lines 155-186).\<close>

definition ldap_modify_entry ::
  "ldap_lib \<Rightarrow> config \<Rightarrow> string \<Rightarrow> modlist \<Rightarrow> state \<Rightarrow> (exc + unit) \<times> state" where
  "ldap_modify_entry lib cfg entry_dn mod_entry s =
     (case ldap_init_default lib cfg s of
        (Inl e, s1) \<Rightarrow> (Inl e, s1)
      | (Inr conn, s1) \<Rightarrow>
     (case bind_default lib cfg conn s1 of
        (Inl e, s2) \<Rightarrow> (Inl e, s2)
      | (Inr bound, s2) \<Rightarrow>
     (case (if errors s2 = [] then modify_action lib conn entry_dn mod_entry s2 else (Inr (), s2)) of
        (Inl e, s3) \<Rightarrow> (Inl e, s3)
      | (Inr result, s3) \<Rightarrow>
     (case unbind_if lib conn bound s3 of
        (Inl e, s4) \<Rightarrow> (Inl e, s4)
      | (Inr u, s4) \<Rightarrow> (Inr result, s4)))))"

text \<open>The action of \<^verbatim>\<open>ldap_delete_entry\<close> (lines 209-212).\<close>

definition delete_action ::
  "ldap_lib \<Rightarrow> ldap_object option \<Rightarrow> string \<Rightarrow> state \<Rightarrow> (exc + unit) \<times> state" where
  "delete_action lib conn entry_dn s =
     (case method_call lib conn (DeleteS entry_dn) s of
        (Some e, s') \<Rightarrow> handled () (handler delete_intro e s')
      | (None, s') \<Rightarrow> (Inr (), s'))"

text \<open>\<^verbatim>\<open>ldap_delete_entry\<close> (lines 189-217).\<close>

definition ldap_delete_entry ::
  "ldap_lib \<Rightarrow> config \<Rightarrow> string \<Rightarrow> state \<Rightarrow> (exc + unit) \<times> state" where
  "ldap_delete_entry lib cfg entry_dn s =
     (case ldap_init_default lib cfg s of
        (Inl e, s1) \<Rightarrow> (Inl e, s1)
      | (Inr conn, s1) \<Rightarrow>
     (case bind_default lib cfg conn s1 of
        (Inl e, s2) \<Rightarrow> (Inl e, s2)
      | (Inr bound, s2) \<Rightarrow>
     (case (if errors s2 = [] then delete_action lib conn entry_dn s2 else (Inr (), s2)) of
        (Inl e, s3) \<Rightarrow> (Inl e, s3)
      | (Inr result, s3) \<Rightarrow>
     (case unbind_if lib conn bound s3 of
        (Inl e, s4) \<Rightarrow> (Inl e, s4)
      | (Inr u, s4) \<Rightarrow> (Inr result, s4)))))"

text \<open>
  \<^verbatim>\<open>ldap_search\<close> (lines 330-377). The call handed to the library carries
  \<^verbatim>\<open>scope or ldap.SCOPE_BASE\<close>, \<^verbatim>\<open>filter_str or "(objectClass=*)"\<close> and
  \<^verbatim>\<open>attrsonly = 1 if attrs_only else 0\<close>.
\<close>

definition search_call ::
  "string \<Rightarrow> string list \<Rightarrow> int option \<Rightarrow> string option \<Rightarrow> bool \<Rightarrow> call" where
  "search_call base_dn attrs scope filter_str attrs_only =
     (let attr_vals = (if attrs_only then 1 else 0)
      in SearchS base_dn (py_or_int scope SCOPE_BASE) (py_or_str filter_str ''(objectClass=*)'')
           attrs attr_vals)"

text \<open>The action of \<^verbatim>\<open>ldap_search\<close> (lines 362-371).\<close>

definition search_action ::
  "ldap_lib \<Rightarrow> ldap_object option \<Rightarrow> string \<Rightarrow> string list \<Rightarrow> int option \<Rightarrow> string option \<Rightarrow> bool
     \<Rightarrow> state \<Rightarrow> (exc + search_data option) \<times> state" where
  "search_action lib conn base_dn attrs scope filter_str attrs_only s =
     (let c = search_call base_dn attrs scope filter_str attrs_only in
      case method_call lib conn c s of
        (Some e, s') \<Rightarrow> handled None (handler search_intro e s')
      | (None, s') \<Rightarrow> (Inr (Some (search_s lib (trace s) c)), s'))"

definition ldap_search ::
  "ldap_lib \<Rightarrow> config \<Rightarrow> string \<Rightarrow> string list \<Rightarrow> int option \<Rightarrow> string option \<Rightarrow> bool \<Rightarrow> state
     \<Rightarrow> (exc + search_data option) \<times> state" where
  "ldap_search lib cfg base_dn attrs scope filter_str attrs_only s =
     (case ldap_init_default lib cfg s of
        (Inl e, s1) \<Rightarrow> (Inl e, s1)
      | (Inr conn, s1) \<Rightarrow>
     (case bind_default lib cfg conn s1 of
        (Inl e, s2) \<Rightarrow> (Inl e, s2)
      | (Inr bound, s2) \<Rightarrow>
     (case (if errors s2 = [] then search_action lib conn base_dn attrs scope filter_str attrs_only s2
            else (Inr None, s2)) of
        (Inl e, s3) \<Rightarrow> (Inl e, s3)
      | (Inr result, s3) \<Rightarrow>
     (case unbind_if lib conn bound s3 of
        (Inl e, s4) \<Rightarrow> (Inl e, s4)
      | (Inr u, s4) \<Rightarrow> (Inr result, s4)))))"

text \<open>\<^verbatim>\<open>__is_secure\<close> (lines 536-539): raises on a missing client object or URI.\<close>

definition is_secure :: "ldap_object option \<Rightarrow> exc + bool" where
  "is_secure conn =
     (case conn of
        None \<Rightarrow> Inl attribute_error
      | Some obj \<Rightarrow>
          (case obj_uri obj of
             None \<Rightarrow> Inl attribute_error
           | Some u \<Rightarrow> Inr (take 6 u = ''ldaps:'')))"

text \<open>The bind of \<^verbatim>\<open>ldap_change_pwd\<close> (lines 289-302).\<close>

definition bind_for_pwd ::
  "ldap_lib \<Rightarrow> config \<Rightarrow> string \<Rightarrow> string option \<Rightarrow> ldap_object option \<Rightarrow> state
     \<Rightarrow> (exc + bool) \<times> state" where
  "bind_for_pwd lib cfg user_dn curr_pwd ldap_client s =
     (case ldap_client of
        None \<Rightarrow> (Inr False, s)
      | Some obj \<Rightarrow>
          if py_truthy curr_pwd
          then ldap_bind lib ldap_client (Some user_dn) curr_pwd s
          else ldap_bind lib ldap_client (LDAP_BIND_DN cfg) (LDAP_BIND_PWD cfg) s)"

text \<open>
  The \<^verbatim>\<open>try\<close> block of \<^verbatim>\<open>ldap_change_pwd\<close> with its handler (lines 306-321). Every
  exception of the block, \<^verbatim>\<open>__is_secure\<close>, \<^verbatim>\<open>decode\<close> and \<^verbatim>\<open>encode\<close> included, goes to
  the handler, and the value returned is then \<^verbatim>\<open>None\<close>.
\<close>

definition pwd_action ::
  "ldap_lib \<Rightarrow> ldap_object option \<Rightarrow> string \<Rightarrow> string \<Rightarrow> string option \<Rightarrow> state
     \<Rightarrow> (exc + string option) \<times> state" where
  "pwd_action lib ldap_client user_dn new_pwd curr_pwd s =
     (case is_secure ldap_client of
        Inl e \<Rightarrow> handled None (handler pwd_intro e s)
      | Inr True \<Rightarrow>
          (let c = PasswdS user_dn curr_pwd new_pwd in
           case method_call lib ldap_client c s of
             (Some e, s') \<Rightarrow> handled None (handler pwd_intro e s')
           | (None, s') \<Rightarrow>
               (case bytes_decode lib (passwd_s lib (trace s) c) of
                  Inl e \<Rightarrow> handled None (handler pwd_intro e s')
                | Inr txt \<Rightarrow> (Inr (Some txt), s')))
      | Inr False \<Rightarrow>
          (case str_encode lib new_pwd of
             Inl e \<Rightarrow> handled None (handler pwd_intro e s)
           | Inr enc \<Rightarrow>
               (case method_call lib ldap_client
                       (ModifyS user_dn [(MOD_REPLACE, ''userpassword'', Some enc)]) s of
                  (Some e, s') \<Rightarrow> handled None (handler pwd_intro e s')
                | (None, s') \<Rightarrow> (Inr (Some new_pwd), s'))))"

text \<open>\<^verbatim>\<open>ldap_change_pwd\<close> (lines 271-327).\<close>

definition ldap_change_pwd ::
  "ldap_lib \<Rightarrow> config \<Rightarrow> string \<Rightarrow> string \<Rightarrow> string option \<Rightarrow> state
     \<Rightarrow> (exc + string option) \<times> state" where
  "ldap_change_pwd lib cfg user_dn new_pwd curr_pwd s =
     (case ldap_init_default lib cfg s of
        (Inl e, s1) \<Rightarrow> (Inl e, s1)
      | (Inr ldap_client, s1) \<Rightarrow>
     (case bind_for_pwd lib cfg user_dn curr_pwd ldap_client s1 of
        (Inl e, s2) \<Rightarrow> (Inl e, s2)
      | (Inr bound, s2) \<Rightarrow>
     (case (if errors s2 = [] then pwd_action lib ldap_client user_dn new_pwd curr_pwd s2
            else (Inr None, s2)) of
        (Inl e, s3) \<Rightarrow> (Inl e, s3)
      | (Inr result, s3) \<Rightarrow>
     (case unbind_if lib ldap_client bound s3 of
        (Inl e, s4) \<Rightarrow> (Inl e, s4)
      | (Inr u, s4) \<Rightarrow> (Inr result, s4)))))"

section \<open>Values of an entry\<close>

text \<open>
  \<^verbatim>\<open>ldap_get_value_list\<close> (lines 454-478): a search with the default scope and filter;
  the values of \<open>attr\<close> in the first entry found, as the library returned them.
\<close>

definition ldap_get_value_list ::
  "ldap_lib \<Rightarrow> config \<Rightarrow> string \<Rightarrow> string \<Rightarrow> state \<Rightarrow> (exc + bytes list option) \<times> state" where
  "ldap_get_value_list lib cfg entry_dn attr s =
     (case ldap_search lib cfg entry_dn [attr] None None False s of
        (Inl e, s1) \<Rightarrow> (Inl e, s1)
      | (Inr search_data, s1) \<Rightarrow>
          (case search_data of
             Some ((dn, user_data) # rest) \<Rightarrow> (Inr (user_data attr), s1)
           | _ \<Rightarrow> (Inr None, s1)))"

text \<open>
  \<^verbatim>\<open>data[0] if isinstance(data, list) and len(data) > 0 else None\<close> (line 394).
\<close>

fun first_or_none :: "'a list option \<Rightarrow> 'a option" where
  "first_or_none None = None"
| "first_or_none (Some []) = None"
| "first_or_none (Some (x # xs)) = Some x"

text \<open>\<^verbatim>\<open>ldap_get_value\<close> (lines 380-394).\<close>

definition ldap_get_value ::
  "ldap_lib \<Rightarrow> config \<Rightarrow> string \<Rightarrow> string \<Rightarrow> state \<Rightarrow> (exc + bytes option) \<times> state" where
  "ldap_get_value lib cfg entry_dn attr s =
     (case ldap_get_value_list lib cfg entry_dn attr s of
        (Inl e, s1) \<Rightarrow> (Inl e, s1)
      | (Inr data, s1) \<Rightarrow> (Inr (first_or_none data), s1))"

text \<open>\<^verbatim>\<open>ldap_add_value\<close> (lines 397-413).\<close>

definition ldap_add_value ::
  "ldap_lib \<Rightarrow> config \<Rightarrow> string \<Rightarrow> string \<Rightarrow> bytes \<Rightarrow> state \<Rightarrow> (exc + unit) \<times> state" where
  "ldap_add_value lib cfg entry_dn attr v s =
     (let mod_entries = [(MOD_ADD, attr, Some v)]
      in ldap_modify_entry lib cfg entry_dn mod_entries s)"

text \<open>The modification mode \<^verbatim>\<open>ldap_set_value\<close> determines (lines 436-443).\<close>

definition set_value_mode :: "bytes option \<Rightarrow> bytes option \<Rightarrow> int option" where
  "set_value_mode curr_value v =
     (if curr_value = None then (if v \<noteq> None then Some MOD_ADD else None)
      else if v = None then Some MOD_DELETE
      else if curr_value \<noteq> v then Some MOD_REPLACE
      else None)"

text \<open>\<^verbatim>\<open>ldap_set_value\<close> (lines 416-451).\<close>

definition ldap_set_value ::
  "ldap_lib \<Rightarrow> config \<Rightarrow> string \<Rightarrow> string \<Rightarrow> bytes option \<Rightarrow> state \<Rightarrow> (exc + unit) \<times> state" where
  "ldap_set_value lib cfg entry_dn attr v s =
     (case ldap_get_value lib cfg entry_dn attr s of
        (Inl e, s1) \<Rightarrow> (Inl e, s1)
      | (Inr curr_value, s1) \<Rightarrow>
          if errors s1 = [] then
            (case set_value_mode curr_value v of
               Some mode \<Rightarrow> ldap_modify_entry lib cfg entry_dn [(mode, attr, v)] s1
             | None \<Rightarrow> (Inr (), s1))
          else (Inr (), s1))"

text \<open>\<^verbatim>\<open>ldap_get_values_lists\<close> (lines 508-533).\<close>

definition ldap_get_values_lists ::
  "ldap_lib \<Rightarrow> config \<Rightarrow> string \<Rightarrow> string list \<Rightarrow> state
     \<Rightarrow> (exc + bytes list option list option) \<times> state" where
  "ldap_get_values_lists lib cfg entry_dn attrs s =
     (case ldap_search lib cfg entry_dn attrs None None False s of
        (Inl e, s1) \<Rightarrow> (Inl e, s1)
      | (Inr search_data, s1) \<Rightarrow>
          (case search_data of
             Some ((dn, user_data) # rest) \<Rightarrow> (Inr (Some (map user_data attrs)), s1)
           | _ \<Rightarrow> (Inr None, s1)))"

text \<open>
  \<^verbatim>\<open>None if xs is None else xs[0]\<close>: unlike line 394 this does not test the length, and
  indexing an empty list raises \<^verbatim>\<open>IndexError\<close> (lines 251 and 502).
\<close>

fun first_value :: "'a list option \<Rightarrow> exc + 'a option" where
  "first_value None = Inr None"
| "first_value (Some []) = Inl index_error"
| "first_value (Some (x # xs)) = Inr (Some x)"

fun first_values :: "'a list option list \<Rightarrow> exc + 'a option list" where
  "first_values [] = Inr []"
| "first_values (item # items) =
     (case first_value item of
        Inl e \<Rightarrow> Inl e
      | Inr x \<Rightarrow> (case first_values items of Inl e \<Rightarrow> Inl e | Inr xs \<Rightarrow> Inr (x # xs)))"

text \<open>
  \<^verbatim>\<open>ldap_get_values\<close> (lines 481-505). An \<^verbatim>\<open>IndexError\<close> of the comprehension is not
  caught.
\<close>

definition ldap_get_values ::
  "ldap_lib \<Rightarrow> config \<Rightarrow> string \<Rightarrow> string list \<Rightarrow> state
     \<Rightarrow> (exc + bytes option list option) \<times> state" where
  "ldap_get_values lib cfg entry_dn attrs s =
     (case ldap_get_values_lists lib cfg entry_dn attrs s of
        (Inl e, s1) \<Rightarrow> (Inl e, s1)
      | (Inr search_data, s1) \<Rightarrow>
          (case search_data of
             None \<Rightarrow> (Inr None, s1)
           | Some items \<Rightarrow>
               (case first_values items of
                  Inl e \<Rightarrow> (Inl e, s1)
                | Inr search_items \<Rightarrow> (Inr (Some search_items), s1))))"

section \<open>Reconciling the attributes of a user\<close>

text \<open>
  The body of the loop of \<^verbatim>\<open>ldap_modify_user\<close> (lines 249-261): the entries one
  \<^verbatim>\<open>(attr_name, new_value)\<close> pair appends to \<^verbatim>\<open>mod_entries\<close>, or the exception it raises.
\<close>

definition mod_for :: "attr_dict \<Rightarrow> string \<times> bytes option \<Rightarrow> exc + modlist" where
  "mod_for user_data a =
     (case a of (attr_name, new_value) \<Rightarrow>
      let entry_list = user_data attr_name in
      if py_truthy new_value then
        (case first_value entry_list of
           Inl e \<Rightarrow> Inl e
         | Inr curr_value \<Rightarrow>
             if new_value \<noteq> curr_value then
               (let mode = (if curr_value = None then MOD_ADD else MOD_REPLACE)
                in Inr [(mode, attr_name, new_value)])
             else Inr [])
      else if py_truthy entry_list then Inr [(MOD_DELETE, attr_name, None)]
      else Inr [])"

text \<open>The loop itself (lines 247-261), \<open>mod_entries\<close> being the list built so far.\<close>

fun build_mod_entries ::
  "attr_dict \<Rightarrow> (string \<times> bytes option) list \<Rightarrow> modlist \<Rightarrow> exc + modlist" where
  "build_mod_entries user_data [] mod_entries = Inr mod_entries"
| "build_mod_entries user_data (a # attrs) mod_entries =
     (case mod_for user_data a of
        Inl e \<Rightarrow> Inl e
      | Inr ms \<Rightarrow> build_mod_entries user_data attrs (mod_entries @ ms))"

text \<open>The search of \<^verbatim>\<open>ldap_modify_user\<close> (lines 231-235).\<close>

definition user_search ::
  "ldap_lib \<Rightarrow> config \<Rightarrow> string \<Rightarrow> (string \<times> bytes option) list \<Rightarrow> state
     \<Rightarrow> (exc + search_data option) \<times> state" where
  "user_search lib cfg user_id attrs s =
     ldap_search lib cfg (''cn=users,'' @ py_format (LDAP_BASE_DN cfg)) (map fst attrs)
       (Some SCOPE_ONELEVEL) (Some (''cn='' @ user_id)) False s"

text \<open>
  \<^verbatim>\<open>ldap_modify_user\<close> (lines 220-268). \<^verbatim>\<open>entry_list[0]\<close> on an empty list of values
  is not inside a \<^verbatim>\<open>try\<close>. Indexing \<^verbatim>\<open>search_data\<close> when it is \<^verbatim>\<open>None\<close> or empty
  would raise too, but then the not-found message has been recorded and the branch is
  not entered.
\<close>

definition ldap_modify_user ::
  "ldap_lib \<Rightarrow> config \<Rightarrow> string \<Rightarrow> (string \<times> bytes option) list \<Rightarrow> state
     \<Rightarrow> (exc + unit) \<times> state" where
  "ldap_modify_user lib cfg user_id attrs s =
     (case user_search lib cfg user_id attrs s of
        (Inl e, s1) \<Rightarrow> (Inl e, s1)
      | (Inr search_data, s1) \<Rightarrow>
          (let s2 = (if \<not> py_truthy search_data then err (not_found_msg user_id) s1 else s1) in
           if errors s2 = [] then
             (case search_data of
                None \<Rightarrow> (Inl type_error, s2)
              | Some [] \<Rightarrow> (Inl index_error, s2)
              | Some ((entry_dn, user_data) # rest) \<Rightarrow>
                  (case build_mod_entries user_data attrs [] of
                     Inl e \<Rightarrow> (Inl e, s2)
                   | Inr mod_entries \<Rightarrow>
                       if length mod_entries > 0
                       then ldap_modify_entry lib cfg entry_dn mod_entries s2
                       else (Inr (), s2)))
           else (Inr (), s2)))"

section \<open>The public operations as one type\<close>

text \<open>
  One constructor for each public function of the module with its arguments, the
  \<^verbatim>\<open>errors\<close> list apart. \<open>run\<close> gives the exception that left the function, if any, and
  the state it leaves behind.
\<close>

datatype operation =
    Init "string option" "filepath option" "int option"
  | Bind "ldap_object option" "string option" "string option"
  | Unbind "ldap_object option"
  | AddEntry string add_attrs
  | ModifyEntry string modlist
  | DeleteEntry string
  | ModifyUser string "(string \<times> bytes option) list"
  | ChangePwd string string "string option"
  | Search string "string list" "int option" "string option" bool
  | GetValue string string
  | AddValue string string bytes
  | SetValue string string "bytes option"
  | GetValueList string string
  | GetValues string "string list"
  | GetValuesLists string "string list"

definition outcome :: "(exc + 'a) \<times> state \<Rightarrow> exc option \<times> state" where
  "outcome r = (case r of (Inl e, s) \<Rightarrow> (Some e, s) | (Inr x, s) \<Rightarrow> (None, s))"

fun run :: "ldap_lib \<Rightarrow> config \<Rightarrow> operation \<Rightarrow> state \<Rightarrow> exc option \<times> state" where
  "run lib cfg (Init server_uri trace_filepath trace_level) s =
     outcome (ldap_init lib cfg server_uri trace_filepath trace_level s)"
| "run lib cfg (Bind ldap_client bind_dn bind_pwd) s =
     outcome (ldap_bind lib ldap_client bind_dn bind_pwd s)"
| "run lib cfg (Unbind ldap_client) s = outcome (ldap_unbind lib ldap_client s)"
| "run lib cfg (AddEntry entry_dn attrs) s = outcome (ldap_add_entry lib cfg entry_dn attrs s)"
| "run lib cfg (ModifyEntry entry_dn mod_entry) s =
     outcome (ldap_modify_entry lib cfg entry_dn mod_entry s)"
| "run lib cfg (DeleteEntry entry_dn) s = outcome (ldap_delete_entry lib cfg entry_dn s)"
| "run lib cfg (ModifyUser user_id attrs) s = outcome (ldap_modify_user lib cfg user_id attrs s)"
| "run lib cfg (ChangePwd user_dn new_pwd curr_pwd) s =
     outcome (ldap_change_pwd lib cfg user_dn new_pwd curr_pwd s)"
| "run lib cfg (Search base_dn attrs scope filter_str attrs_only) s =
     outcome (ldap_search lib cfg base_dn attrs scope filter_str attrs_only s)"
| "run lib cfg (GetValue entry_dn attr) s = outcome (ldap_get_value lib cfg entry_dn attr s)"
| "run lib cfg (AddValue entry_dn attr v) s = outcome (ldap_add_value lib cfg entry_dn attr v s)"
| "run lib cfg (SetValue entry_dn attr v) s = outcome (ldap_set_value lib cfg entry_dn attr v s)"
| "run lib cfg (GetValueList entry_dn attr) s =
     outcome (ldap_get_value_list lib cfg entry_dn attr s)"
| "run lib cfg (GetValues entry_dn attrs) s = outcome (ldap_get_values lib cfg entry_dn attrs s)"
| "run lib cfg (GetValuesLists entry_dn attrs) s =
     outcome (ldap_get_values_lists lib cfg entry_dn attrs s)"

text \<open>
  The bind an operation performs, the five operations that call the library directly,
  and the operations that have an action step (all but init, bind and unbind).
\<close>

fun bind_of ::
  "ldap_lib \<Rightarrow> config \<Rightarrow> operation \<Rightarrow> ldap_object option \<Rightarrow> state \<Rightarrow> (exc + bool) \<times> state" where
  "bind_of lib cfg (ChangePwd user_dn new_pwd curr_pwd) client s =
     bind_for_pwd lib cfg user_dn curr_pwd client s"
| "bind_of lib cfg op client s = bind_default lib cfg client s"

fun is_directory_op :: "operation \<Rightarrow> bool" where
  "is_directory_op (AddEntry entry_dn attrs) = True"
| "is_directory_op (ModifyEntry entry_dn mod_entry) = True"
| "is_directory_op (DeleteEntry entry_dn) = True"
| "is_directory_op (Search base_dn attrs scope filter_str attrs_only) = True"
| "is_directory_op (ChangePwd user_dn new_pwd curr_pwd) = True"
| "is_directory_op op = False"

fun has_action_step :: "operation \<Rightarrow> bool" where
  "has_action_step (Init server_uri trace_filepath trace_level) = False"
| "has_action_step (Bind ldap_client bind_dn bind_pwd) = False"
| "has_action_step (Unbind ldap_client) = False"
| "has_action_step op = True"

section \<open>Reading the calls an operation made\<close>

definition new_calls :: "state \<Rightarrow> state \<Rightarrow> call list" where
  "new_calls s s' = drop (length (trace s)) (trace s')"

text \<open>The action steps, and among them the ones that write to the directory.\<close>

fun is_action :: "call \<Rightarrow> bool" where
  "is_action (AddS dn ml) = True"
| "is_action (ModifyS dn ml) = True"
| "is_action (DeleteS dn) = True"
| "is_action (SearchS b sc f al ao) = True"
| "is_action (PasswdS u old new) = True"
| "is_action c = False"

fun is_write :: "call \<Rightarrow> bool" where
  "is_write (AddS dn ml) = True"
| "is_write (ModifyS dn ml) = True"
| "is_write (DeleteS dn) = True"
| "is_write (PasswdS u old new) = True"
| "is_write c = False"

fun is_init :: "call \<Rightarrow> bool" where
  "is_init (PathOpen p) = True"
| "is_init (Initialize u l t) = True"
| "is_init (SetOption opt v) = True"
| "is_init c = False"

fun is_bind :: "call \<Rightarrow> bool" where
  "is_bind (SimpleBindS who cred) = True"
| "is_bind c = False"

fun is_unbind :: "call \<Rightarrow> bool" where
  "is_unbind UnbindS = True"
| "is_unbind TraceClose = True"
| "is_unbind c = False"

section \<open>Auxiliary notions for the proofs\<close>

text \<open>
  \<open>grows P s s'\<close>: from \<open>s\<close> to \<open>s'\<close> the error list and the trace were only appended
  to, and every call added satisfies \<open>P\<close>.
\<close>

definition grows :: "(call \<Rightarrow> bool) \<Rightarrow> state \<Rightarrow> state \<Rightarrow> bool" where
  "grows P s s' \<longleftrightarrow>
     (\<exists>es cs. errors s' = errors s @ es \<and> trace s' = trace s @ cs \<and> list_all P cs)"

text \<open>
  The shape the five directory operations share, with the bind and the action as
  parameters; each operation is shown equal to an instance of it.
\<close>

definition bracket ::
  "ldap_lib \<Rightarrow> config \<Rightarrow> (ldap_object option \<Rightarrow> state \<Rightarrow> (exc + bool) \<times> state)
     \<Rightarrow> (ldap_object option \<Rightarrow> state \<Rightarrow> (exc + 'r) \<times> state) \<Rightarrow> 'r \<Rightarrow> state
     \<Rightarrow> (exc + 'r) \<times> state" where
  "bracket lib cfg bind action dflt s =
     (case ldap_init_default lib cfg s of
        (Inl e, s1) \<Rightarrow> (Inl e, s1)
      | (Inr client, s1) \<Rightarrow>
     (case bind client s1 of
        (Inl e, s2) \<Rightarrow> (Inl e, s2)
      | (Inr bound, s2) \<Rightarrow>
     (case (if errors s2 = [] then action client s2 else (Inr dflt, s2)) of
        (Inl e, s3) \<Rightarrow> (Inl e, s3)
      | (Inr result, s3) \<Rightarrow>
     (case unbind_if lib client bound s3 of
        (Inl e, s4) \<Rightarrow> (Inl e, s4)
      | (Inr u, s4) \<Rightarrow> (Inr result, s4)))))"

definition after_bind ::
  "ldap_lib \<Rightarrow> config \<Rightarrow> (ldap_object option \<Rightarrow> state \<Rightarrow> (exc + bool) \<times> state) \<Rightarrow> state \<Rightarrow> state" where
  "after_bind lib cfg bind s =
     (case ldap_init_default lib cfg s of
        (Inl e, s1) \<Rightarrow> s1
      | (Inr client, s1) \<Rightarrow> snd (bind client s1))"

definition after_action ::
  "ldap_lib \<Rightarrow> config \<Rightarrow> (ldap_object option \<Rightarrow> state \<Rightarrow> (exc + bool) \<times> state)
     \<Rightarrow> (ldap_object option \<Rightarrow> state \<Rightarrow> (exc + 'r) \<times> state) \<Rightarrow> state \<Rightarrow> state" where
  "after_action lib cfg bind action s =
     (case ldap_init_default lib cfg s of
        (Inl e, s1) \<Rightarrow> s1
      | (Inr client, s1) \<Rightarrow>
          (case bind client s1 of
             (Inl e, s2) \<Rightarrow> s2
           | (Inr bound, s2) \<Rightarrow> if errors s2 = [] then snd (action client s2) else s2))"

section \<open>Example worlds\<close>

text \<open>
  Two configurations, libraries and the state of a caller who passes an empty error
  list: the concrete inputs at which the theorems below are exercised. In \<open>quiet_lib\<close>
  no call raises and every search returns \<open>found\<close>; its \<^verbatim>\<open>addModlist\<close> raises on a
  value that is \<^verbatim>\<open>None\<close> and leaves out the attributes without values. In
  \<open>raising_lib bad e found\<close> the calls that satisfy \<open>bad\<close> raise \<open>e\<close>.
\<close>

definition example_cfg :: config where
  "example_cfg =
     \<lparr>LDAP_BASE_DN = Some ''dc=example,dc=com'',
      LDAP_BIND_DN = Some ''cn=admin,dc=example,dc=com'',
      LDAP_BIND_PWD = Some ''secret'',
      LDAP_SERVER_URI = Some ''ldap://localhost:389'',
      LDAP_TIMEOUT = 30,
      LDAP_TRACE_FILEPATH = Some (PathObj ''/tmp/app_ldap.log''),
      LDAP_TRACE_LEVEL = Some 0\<rparr>"

definition secure_cfg :: config where
  "secure_cfg = example_cfg\<lparr>LDAP_SERVER_URI := Some ''ldaps://localhost:636''\<rparr>"

fun example_addModlist :: "add_attrs \<Rightarrow> exc + add_modlist" where
  "example_addModlist [] = Inr []"
| "example_addModlist ((k, None) # rest) = Inl type_error"
| "example_addModlist ((k, Some vs) # rest) =
     (case example_addModlist rest of
        Inl e \<Rightarrow> Inl e
      | Inr ml \<Rightarrow> Inr (if vs \<noteq> [] then (k, vs) # ml else ml))"

definition quiet_lib :: "search_data \<Rightarrow> ldap_lib" where
  "quiet_lib found =
     \<lparr>raises = (\<lambda>h c. None),
      search_s = (\<lambda>h c. found),
      passwd_s = (\<lambda>h c. ''generated''),
      addModlist = example_addModlist,
      str_encode = Inr,
      bytes_decode = Inr\<rparr>"

definition raising_lib :: "(call \<Rightarrow> bool) \<Rightarrow> exc \<Rightarrow> search_data \<Rightarrow> ldap_lib" where
  "raising_lib bad e found =
     (quiet_lib found)\<lparr>raises := (\<lambda>h c. if bad c then Some e else None)\<rparr>"

definition refused :: exc where
  "refused = LDAPError ''ldap.INVALID_CREDENTIALS'' (ErrData ''49'' ''Invalid credentials'' None)"

definition start :: state where
  "start = \<lparr>errors = [], trace = []\<rparr>"

definition example_client :: ldap_object where
  "example_client =
     \<lparr>obj_uri = Some ''ldap://localhost:389'',
      obj_trace_file = TraceFile (PathObj ''/tmp/app_ldap.log'')\<rparr>"

definition init_calls :: "call list" where
  "init_calls =
     [PathOpen (PathObj ''/tmp/app_ldap.log''),
      Initialize (Some ''ldap://localhost:389'') 0 (TraceFile (PathObj ''/tmp/app_ldap.log'')),
      SetOption OPT_PROTOCOL_VERSION 3, SetOption OPT_REFERRALS 0, SetOption OPT_TIMEOUT 30]"

definition admin_bind :: call where
  "admin_bind = SimpleBindS (Some ''cn=admin,dc=example,dc=com'') (Some ''secret'')"

definition alice_entry :: attr_dict where
  "alice_entry = [''mail'' \<mapsto> [''a'', ''b'', ''c''], ''cn'' \<mapsto> [''Alice''], ''photo'' \<mapsto> []]"

section \<open>How the state grows\<close>

lemma grows_refl: "grows P s s"
  by (simp add: grows_def)

lemma grows_trans: "grows P s s1 \<Longrightarrow> grows P s1 s2 \<Longrightarrow> grows P s s2"
  by (auto simp: grows_def)

lemma grows_weaken: "grows P s s' \<Longrightarrow> (\<And>c. P c \<Longrightarrow> Q c) \<Longrightarrow> grows Q s s'"
  by (auto simp: grows_def list_all_iff)

lemma grows_any: "grows P s s' \<Longrightarrow> grows (\<lambda>c. True) s s'"
  by (erule grows_weaken) simp

lemma grows_err: "grows P s s1 \<Longrightarrow> grows P s (err msg s1)"
  by (auto simp: grows_def err_def)

lemma grows_invoke: "invoke lib c s = (r, s1) \<Longrightarrow> P c \<Longrightarrow> grows P s s1"
  by (auto simp: grows_def invoke_def)

lemma grows_method_call: "method_call lib client c s = (r, s1) \<Longrightarrow> P c \<Longrightarrow> grows P s s1"
  by (auto simp: method_call_def grows_refl split: option.splits dest: grows_invoke)

lemma grows_handler: "handler intro e s = (r, s1) \<Longrightarrow> grows P s s1"
  by (auto simp: handler_def grows_refl split: sum.splits intro: grows_err)

lemma grows_handled: "handled x (handler intro e s) = (r, s1) \<Longrightarrow> grows P s s1"
  by (auto simp: handled_def split: prod.splits option.splits dest: grows_handler)

lemma grows_errors: "grows P s s' \<Longrightarrow> prefix (errors s) (errors s')"
  by (auto simp: grows_def)

lemma grows_errors_nonempty: "grows P s s' \<Longrightarrow> errors s \<noteq> [] \<Longrightarrow> errors s' \<noteq> []"
  by (auto simp: grows_def)

lemma grows_trace: "grows P s s' \<Longrightarrow> trace s' = trace s @ new_calls s s'"
  by (auto simp: grows_def new_calls_def)

lemma grows_new_calls: "grows P s s' \<Longrightarrow> list_all P (new_calls s s')"
  by (auto simp: grows_def new_calls_def)

lemma new_calls_same [simp]: "new_calls s s = []"
  by (simp add: new_calls_def)

lemma new_calls_err [simp]: "new_calls s (err msg s') = new_calls s s'"
  by (simp add: new_calls_def err_def)

lemma new_calls_append:
  "grows P s s1 \<Longrightarrow> grows Q s1 s2 \<Longrightarrow> new_calls s s2 = new_calls s s1 @ new_calls s1 s2"
  by (auto simp: grows_def new_calls_def)

lemma write_is_action: "is_write c \<Longrightarrow> is_action c"
  by (cases c) auto

lemma seg_init:
  "list_all is_init xs \<Longrightarrow>
     filter is_action xs = [] \<and> filter is_bind xs = [] \<and> filter is_unbind xs = [] \<and>
     filter is_init xs = xs"
proof (induction xs)
  case Nil
  show ?case by simp
next
  case (Cons c cs)
  then show ?case by (cases c) simp_all
qed

lemma seg_bind:
  "list_all is_bind xs \<Longrightarrow>
     filter is_action xs = [] \<and> filter is_bind xs = xs \<and> filter is_unbind xs = [] \<and>
     filter is_init xs = []"
proof (induction xs)
  case Nil
  show ?case by simp
next
  case (Cons c cs)
  then show ?case by (cases c) simp_all
qed

lemma seg_action:
  "list_all is_action xs \<Longrightarrow>
     filter is_action xs = xs \<and> filter is_bind xs = [] \<and> filter is_unbind xs = [] \<and>
     filter is_init xs = []"
proof (induction xs)
  case Nil
  show ?case by simp
next
  case (Cons c cs)
  then show ?case by (cases c) simp_all
qed

lemma seg_unbind:
  "list_all is_unbind xs \<Longrightarrow>
     filter is_action xs = [] \<and> filter is_bind xs = [] \<and> filter is_unbind xs = xs \<and>
     filter is_init xs = []"
proof (induction xs)
  case Nil
  show ?case by simp
next
  case (Cons c cs)
  then show ?case by (cases c) simp_all
qed

lemma filter_write_action: "filter is_write (filter is_action xs) = filter is_write xs"
  by (induction xs) (auto dest: write_is_action)

lemma chain_calls:
  assumes "grows is_init s s1" and "grows is_bind s1 s2" and "grows is_action s2 s3"
    and "grows is_unbind s3 s4"
  shows "new_calls s s4 = new_calls s s1 @ new_calls s1 s2 @ new_calls s2 s3 @ new_calls s3 s4"
    and "grows (\<lambda>c. True) s s4"
proof -
  have a1: "grows (\<lambda>c. True) s s1" by (rule grows_any[OF assms(1)])
  have a2: "grows (\<lambda>c. True) s1 s2" by (rule grows_any[OF assms(2)])
  have a3: "grows (\<lambda>c. True) s2 s3" by (rule grows_any[OF assms(3)])
  have a4: "grows (\<lambda>c. True) s3 s4" by (rule grows_any[OF assms(4)])
  have b1: "grows (\<lambda>c. True) s s2" by (rule grows_trans[OF a1 a2])
  have b2: "grows (\<lambda>c. True) s s3" by (rule grows_trans[OF b1 a3])
  show "grows (\<lambda>c. True) s s4" by (rule grows_trans[OF b2 a4])
  show "new_calls s s4 = new_calls s s1 @ new_calls s1 s2 @ new_calls s2 s3 @ new_calls s3 s4"
    by (simp only: new_calls_append[OF b2 a4] new_calls_append[OF b1 a3] new_calls_append[OF a1 a2]
        append_assoc)
qed

lemma chain_filter:
  assumes "grows is_init s s1" and "grows is_bind s1 s2" and "grows is_action s2 s3"
    and "grows is_unbind s3 s4"
  shows "filter is_init (new_calls s s4) = new_calls s s1"
    and "filter is_bind (new_calls s s4) = new_calls s1 s2"
    and "filter is_action (new_calls s s4) = new_calls s2 s3"
    and "filter is_unbind (new_calls s s4) = new_calls s3 s4"
    and "filter is_write (new_calls s s4) = filter is_write (new_calls s2 s3)"
proof -
  note c = chain_calls(1)[OF assms]
  note i = seg_init[OF grows_new_calls[OF assms(1)]]
  note b = seg_bind[OF grows_new_calls[OF assms(2)]]
  note a = seg_action[OF grows_new_calls[OF assms(3)]]
  note u = seg_unbind[OF grows_new_calls[OF assms(4)]]
  show "filter is_init (new_calls s s4) = new_calls s s1"
    unfolding c using i b a u by simp
  show "filter is_bind (new_calls s s4) = new_calls s1 s2"
    unfolding c using i b a u by simp
  show f: "filter is_action (new_calls s s4) = new_calls s2 s3"
    unfolding c using i b a u by simp
  show "filter is_unbind (new_calls s s4) = new_calls s3 s4"
    unfolding c using i b a u by simp
  show "filter is_write (new_calls s s4) = filter is_write (new_calls s2 s3)"
    using filter_write_action[of "new_calls s s4"] f by simp
qed

subsection \<open>Initialising, binding, unbinding\<close>

lemma grows_open_trace: "open_trace lib p s = (r, s1) \<Longrightarrow> grows is_init s s1"
  by (auto simp: open_trace_def grows_refl split: option.splits if_splits prod.splits
      dest!: grows_invoke[where P = is_init])

lemma grows_configure: "configure lib cfg s = (r, s1) \<Longrightarrow> grows is_init s s1"
  by (auto simp: configure_def split: option.splits prod.splits
      dest!: grows_invoke[where P = is_init] intro: grows_trans)

lemma grows_ldap_init: "ldap_init lib cfg u p l s = (r, s1) \<Longrightarrow> grows is_init s s1"
  by (auto simp: ldap_init_def Let_def split: option.splits prod.splits sum.splits
      dest!: grows_invoke[where P = is_init] grows_open_trace grows_configure
        grows_handled[where P = is_init]
      intro: grows_trans)

lemma handled_None: "handled None h = (Inr (Some x), s1) \<Longrightarrow> False"
  by (auto simp: handled_def split: prod.splits option.splits)

lemma handled_errors: "handled x (handler intro e s) = (Inr y, s1) \<Longrightarrow> errors s1 \<noteq> []"
  by (auto simp: handled_def handler_def err_def split: prod.splits option.splits sum.splits)

lemma ldap_init_None: "ldap_init lib cfg u p l s = (Inr None, s1) \<Longrightarrow> errors s1 \<noteq> []"
  by (auto simp: ldap_init_def Let_def split: option.splits prod.splits sum.splits
      dest: handled_errors)

lemma ldap_init_calls: "ldap_init lib cfg u p l s = (r, s1) \<Longrightarrow> new_calls s s1 \<noteq> []"
  by (auto simp: ldap_init_def open_trace_def configure_def invoke_def Let_def err_def new_calls_def
      handled_def handler_def
      split: option.splits prod.splits sum.splits if_splits)

lemma ldap_init_uri: "ldap_init lib cfg u p l s = (Inr (Some obj), s1) \<Longrightarrow> obj_uri obj = u"
  by (auto simp: ldap_init_def Let_def handled_def split: option.splits prod.splits sum.splits)

lemma grows_init_default: "ldap_init_default lib cfg s = (r, s1) \<Longrightarrow> grows is_init s s1"
  unfolding ldap_init_default_def by (rule grows_ldap_init)

lemma init_default_None: "ldap_init_default lib cfg s = (Inr None, s1) \<Longrightarrow> errors s1 \<noteq> []"
  unfolding ldap_init_default_def by (rule ldap_init_None)

lemma init_default_calls: "ldap_init_default lib cfg s = (r, s1) \<Longrightarrow> new_calls s s1 \<noteq> []"
  unfolding ldap_init_default_def by (rule ldap_init_calls)

lemma init_default_uri:
  "ldap_init_default lib cfg s = (Inr (Some obj), s1) \<Longrightarrow> obj_uri obj = LDAP_SERVER_URI cfg"
  unfolding ldap_init_default_def by (rule ldap_init_uri)

lemma grows_ldap_bind: "ldap_bind lib client dn pwd s = (b, s1) \<Longrightarrow> grows is_bind s s1"
  by (auto simp: ldap_bind_def split: option.splits prod.splits
      dest!: grows_method_call[where P = is_bind] grows_handled[where P = is_bind]
      intro: grows_trans)

lemma ldap_bind_False: "ldap_bind lib client dn pwd s = (Inr False, s1) \<Longrightarrow> errors s1 \<noteq> []"
  by (auto simp: ldap_bind_def split: option.splits prod.splits dest: handled_errors)

lemma ldap_bind_calls:
  "ldap_bind lib (Some obj) dn pwd s = (b, s1) \<Longrightarrow> new_calls s s1 = [SimpleBindS dn pwd]"
  by (auto simp: ldap_bind_def method_call_def invoke_def err_def new_calls_def handled_def
      handler_def split: option.splits prod.splits sum.splits)

lemma grows_bind_default: "bind_default lib cfg client s = (b, s1) \<Longrightarrow> grows is_bind s s1"
  by (auto simp: bind_default_def grows_refl split: option.splits dest: grows_ldap_bind)

lemma bind_default_None: "bind_default lib cfg None s = (b, s1) \<Longrightarrow> b = Inr False \<and> s1 = s"
  by (auto simp: bind_default_def)

lemma bind_default_False:
  "bind_default lib cfg (Some obj) s = (Inr False, s1) \<Longrightarrow> errors s1 \<noteq> []"
  by (auto simp: bind_default_def dest: ldap_bind_False)

lemma bind_default_calls:
  "bind_default lib cfg (Some obj) s = (b, s1) \<Longrightarrow>
     new_calls s s1 = [SimpleBindS (LDAP_BIND_DN cfg) (LDAP_BIND_PWD cfg)]"
  by (auto simp: bind_default_def dest: ldap_bind_calls)

lemma grows_bind_for_pwd: "bind_for_pwd lib cfg u p client s = (b, s1) \<Longrightarrow> grows is_bind s s1"
  by (auto simp: bind_for_pwd_def grows_refl split: option.splits if_splits dest: grows_ldap_bind)

lemma bind_for_pwd_None: "bind_for_pwd lib cfg u p None s = (b, s1) \<Longrightarrow> b = Inr False \<and> s1 = s"
  by (auto simp: bind_for_pwd_def)

lemma bind_for_pwd_False:
  "bind_for_pwd lib cfg u p (Some obj) s = (Inr False, s1) \<Longrightarrow> errors s1 \<noteq> []"
  by (auto simp: bind_for_pwd_def split: if_splits dest: ldap_bind_False)

lemma bind_for_pwd_calls:
  "bind_for_pwd lib cfg u p (Some obj) s = (b, s1) \<Longrightarrow>
     new_calls s s1 = [if py_truthy p then SimpleBindS (Some u) p
                       else SimpleBindS (LDAP_BIND_DN cfg) (LDAP_BIND_PWD cfg)]"
  by (auto simp: bind_for_pwd_def split: if_splits dest: ldap_bind_calls)

lemma grows_ldap_unbind: "ldap_unbind lib client s = (r, s1) \<Longrightarrow> grows is_unbind s s1"
  by (auto simp: ldap_unbind_def grows_refl split: option.splits prod.splits if_splits
      dest!: grows_method_call[where P = is_unbind] grows_invoke[where P = is_unbind]
        grows_handled[where P = is_unbind]
      intro: grows_trans)

lemma ldap_unbind_calls:
  "ldap_unbind lib (Some obj) s = (r, s1) \<Longrightarrow>
     filter (\<lambda>c. c = UnbindS) (new_calls s s1) = [UnbindS]"
  by (auto simp: ldap_unbind_def method_call_def invoke_def err_def new_calls_def handled_def
      handler_def split: option.splits prod.splits sum.splits if_splits)

lemma grows_unbind_if: "unbind_if lib client bound s = (r, s1) \<Longrightarrow> grows is_unbind s s1"
  by (auto simp: unbind_if_def grows_refl split: if_splits dest: grows_ldap_unbind)

subsection \<open>Actions\<close>

lemma grows_add_action: "add_action lib client dn attrs s = (r, s1) \<Longrightarrow> grows is_action s s1"
  by (auto simp: add_action_def grows_refl split: option.splits prod.splits sum.splits
      dest!: grows_method_call[where P = is_action] grows_handled[where P = is_action]
      intro: grows_trans)

lemma grows_modify_action: "modify_action lib client dn ml s = (r, s1) \<Longrightarrow> grows is_action s s1"
  by (auto simp: modify_action_def split: option.splits prod.splits
      dest!: grows_method_call[where P = is_action] grows_handled[where P = is_action]
      intro: grows_trans)

lemma grows_delete_action: "delete_action lib client dn s = (r, s1) \<Longrightarrow> grows is_action s s1"
  by (auto simp: delete_action_def split: option.splits prod.splits
      dest!: grows_method_call[where P = is_action] grows_handled[where P = is_action]
      intro: grows_trans)

lemma grows_search_action:
  "search_action lib client b a sc f ao s = (r, s1) \<Longrightarrow> grows is_action s s1"
  by (auto simp: search_action_def search_call_def Let_def split: option.splits prod.splits
      dest!: grows_method_call[where P = is_action] grows_handled[where P = is_action]
      intro: grows_trans)

lemma grows_pwd_action:
  "pwd_action lib client u new old s = (r, s1) \<Longrightarrow> grows is_action s s1"
proof (cases "is_secure client")
  case (Inl e)
  assume "pwd_action lib client u new old s = (r, s1)"
  with Inl show ?thesis
    by (auto simp: pwd_action_def dest: grows_handled[where P = is_action])
next
  case (Inr sec)
  assume a: "pwd_action lib client u new old s = (r, s1)"
  show ?thesis
  proof (cases sec)
    case True
    with Inr a show ?thesis
      by (auto simp: pwd_action_def Let_def split: option.splits prod.splits sum.splits
          dest!: grows_method_call[where P = is_action] grows_handled[where P = is_action]
          intro: grows_trans)
  next
    case False
    with Inr a show ?thesis
      by (auto simp: pwd_action_def Let_def grows_refl split: option.splits prod.splits sum.splits
          dest!: grows_method_call[where P = is_action] grows_handled[where P = is_action]
          intro: grows_trans)
  qed
qed

lemma snd_handled [simp]: "snd (handled x h) = snd h"
  by (auto simp: handled_def split: prod.splits option.splits)

lemma trace_handler [simp]: "trace (snd (handler intro e s)) = trace s"
  by (auto simp: handler_def err_def split: sum.splits)

lemma new_calls_handler [simp]: "new_calls s (snd (handler intro e s')) = new_calls s s'"
  by (auto simp: handler_def new_calls_def err_def split: sum.splits)

lemma modify_action_calls:
  "new_calls s (snd (modify_action lib client dn ml s)) =
     (case client of None \<Rightarrow> [] | Some obj \<Rightarrow> [ModifyS dn ml])"
  by (auto simp: modify_action_def method_call_def invoke_def new_calls_def
      split: option.splits prod.splits)

lemma search_action_calls:
  "new_calls s (snd (search_action lib client b a sc f ao s)) =
     (case client of None \<Rightarrow> [] | Some obj \<Rightarrow> [search_call b a sc f ao])"
  by (auto simp: search_action_def method_call_def invoke_def new_calls_def Let_def
      split: option.splits prod.splits)

subsection \<open>The shape the operations share\<close>

lemma bracket_chain:
  assumes B: "\<And>c t r t'. bind c t = (r, t') \<Longrightarrow> grows is_bind t t'"
    and A: "\<And>c t r t'. action c t = (r, t') \<Longrightarrow> grows is_action t t'"
  shows "grows is_init s (snd (ldap_init_default lib cfg s))"
    and "grows is_bind (snd (ldap_init_default lib cfg s)) (after_bind lib cfg bind s)"
    and "grows is_action (after_bind lib cfg bind s) (after_action lib cfg bind action s)"
    and "grows is_unbind (after_action lib cfg bind action s) (snd (bracket lib cfg bind action dflt s))"
proof -
  obtain ri s1 where i: "ldap_init_default lib cfg s = (ri, s1)" by force
  show "grows is_init s (snd (ldap_init_default lib cfg s))"
    using grows_init_default[OF i] i by simp
  show "grows is_bind (snd (ldap_init_default lib cfg s)) (after_bind lib cfg bind s)"
  proof (cases ri)
    case (Inl e)
    with i show ?thesis by (simp add: after_bind_def grows_refl)
  next
    case (Inr client)
    with i show ?thesis by (simp add: after_bind_def B[OF surjective_pairing])
  qed
  show "grows is_action (after_bind lib cfg bind s) (after_action lib cfg bind action s)"
  proof (cases ri)
    case (Inl e)
    with i show ?thesis by (simp add: after_bind_def after_action_def grows_refl)
  next
    case (Inr client)
    obtain rb s2 where b: "bind client s1 = (rb, s2)" by force
    show ?thesis
    proof (cases rb)
      case (Inl e)
      with i Inr b show ?thesis by (simp add: after_bind_def after_action_def grows_refl)
    next
      case (Inr bound)
      with i \<open>ri = Inr client\<close> b show ?thesis
        by (simp add: after_bind_def after_action_def grows_refl A[OF surjective_pairing])
    qed
  qed
  show "grows is_unbind (after_action lib cfg bind action s) (snd (bracket lib cfg bind action dflt s))"
  proof (cases ri)
    case (Inl e)
    with i show ?thesis by (simp add: bracket_def after_action_def grows_refl)
  next
    case (Inr client)
    obtain rb s2 where b: "bind client s1 = (rb, s2)" by force
    show ?thesis
    proof (cases rb)
      case (Inl e)
      with i Inr b show ?thesis by (simp add: bracket_def after_action_def grows_refl)
    next
      case (Inr bound)
      obtain ra s3 where a: "(if errors s2 = [] then action client s2 else (Inr dflt, s2)) = (ra, s3)"
        by force
      have s3: "(if errors s2 = [] then snd (action client s2) else s2) = s3"
        using a by (auto split: if_splits)
      show ?thesis
      proof (cases ra)
        case (Inl e)
        with i \<open>ri = Inr client\<close> b Inr a s3 show ?thesis
          by (simp add: bracket_def after_action_def grows_refl)
      next
        case (Inr res)
        obtain ru s4 where u: "unbind_if lib client bound s3 = (ru, s4)" by force
        with i \<open>ri = Inr client\<close> b \<open>rb = Inr bound\<close> a s3 Inr show ?thesis
          using grows_unbind_if[OF u]
          by (cases ru) (simp_all add: bracket_def after_action_def)
      qed
    qed
  qed
qed

lemma bracket_filter:
  assumes B: "\<And>c t r t'. bind c t = (r, t') \<Longrightarrow> grows is_bind t t'"
    and A: "\<And>c t r t'. action c t = (r, t') \<Longrightarrow> grows is_action t t'"
  shows "filter is_init (new_calls s (snd (bracket lib cfg bind action dflt s))) =
           new_calls s (snd (ldap_init_default lib cfg s))"
    and "filter is_bind (new_calls s (snd (bracket lib cfg bind action dflt s))) =
           new_calls (snd (ldap_init_default lib cfg s)) (after_bind lib cfg bind s)"
    and "filter is_action (new_calls s (snd (bracket lib cfg bind action dflt s))) =
           new_calls (after_bind lib cfg bind s) (after_action lib cfg bind action s)"
    and "filter is_unbind (new_calls s (snd (bracket lib cfg bind action dflt s))) =
           new_calls (after_action lib cfg bind action s) (snd (bracket lib cfg bind action dflt s))"
    and "filter is_write (new_calls s (snd (bracket lib cfg bind action dflt s))) =
           filter is_write (new_calls (after_bind lib cfg bind s) (after_action lib cfg bind action s))"
    and "grows (\<lambda>c. True) s (snd (bracket lib cfg bind action dflt s))"
proof -
  have c1: "grows is_init s (snd (ldap_init_default lib cfg s))"
    by (rule bracket_chain(1)[OF B A])
  have c2: "grows is_bind (snd (ldap_init_default lib cfg s)) (after_bind lib cfg bind s)"
    by (rule bracket_chain(2)[OF B A])
  have c3: "grows is_action (after_bind lib cfg bind s) (after_action lib cfg bind action s)"
    by (rule bracket_chain(3)[OF B A])
  have c4: "grows is_unbind (after_action lib cfg bind action s)
              (snd (bracket lib cfg bind action dflt s))"
    by (rule bracket_chain(4)[OF B A])
  show "filter is_init (new_calls s (snd (bracket lib cfg bind action dflt s))) =
           new_calls s (snd (ldap_init_default lib cfg s))"
    by (rule chain_filter(1)[OF c1 c2 c3 c4])
  show "filter is_bind (new_calls s (snd (bracket lib cfg bind action dflt s))) =
           new_calls (snd (ldap_init_default lib cfg s)) (after_bind lib cfg bind s)"
    by (rule chain_filter(2)[OF c1 c2 c3 c4])
  show "filter is_action (new_calls s (snd (bracket lib cfg bind action dflt s))) =
           new_calls (after_bind lib cfg bind s) (after_action lib cfg bind action s)"
    by (rule chain_filter(3)[OF c1 c2 c3 c4])
  show "filter is_unbind (new_calls s (snd (bracket lib cfg bind action dflt s))) =
           new_calls (after_action lib cfg bind action s) (snd (bracket lib cfg bind action dflt s))"
    by (rule chain_filter(4)[OF c1 c2 c3 c4])
  show "filter is_write (new_calls s (snd (bracket lib cfg bind action dflt s))) =
           filter is_write (new_calls (after_bind lib cfg bind s) (after_action lib cfg bind action s))"
    by (rule chain_filter(5)[OF c1 c2 c3 c4])
  show "grows (\<lambda>c. True) s (snd (bracket lib cfg bind action dflt s))"
    by (rule chain_calls(2)[OF c1 c2 c3 c4])
qed

text \<open>Each operation is an instance of the shape.\<close>

lemma ldap_add_entry_bracket:
  "ldap_add_entry lib cfg dn attrs s =
     bracket lib cfg (bind_default lib cfg) (\<lambda>c. add_action lib c dn attrs) () s"
  by (simp add: ldap_add_entry_def bracket_def)

lemma ldap_modify_entry_bracket:
  "ldap_modify_entry lib cfg dn ml s =
     bracket lib cfg (bind_default lib cfg) (\<lambda>c. modify_action lib c dn ml) () s"
  by (simp add: ldap_modify_entry_def bracket_def)

lemma ldap_delete_entry_bracket:
  "ldap_delete_entry lib cfg dn s =
     bracket lib cfg (bind_default lib cfg) (\<lambda>c. delete_action lib c dn) () s"
  by (simp add: ldap_delete_entry_def bracket_def)

lemma ldap_search_bracket:
  "ldap_search lib cfg b a sc f ao s =
     bracket lib cfg (bind_default lib cfg) (\<lambda>c. search_action lib c b a sc f ao) None s"
  by (simp add: ldap_search_def bracket_def)

lemma ldap_change_pwd_bracket:
  "ldap_change_pwd lib cfg u new old s =
     bracket lib cfg (bind_for_pwd lib cfg u old) (\<lambda>c. pwd_action lib c u new old) None s"
  by (simp add: ldap_change_pwd_def bracket_def)

lemma fst_outcome [simp]: "(fst (outcome r) = None) = (\<exists>x. fst r = Inr x)"
  by (cases r; cases "fst r") (auto simp: outcome_def)

lemma snd_outcome [simp]: "snd (outcome r) = snd r"
  by (cases r; cases "fst r") (auto simp: outcome_def)

lemma bracket_main:
  assumes "ldap_init_default lib cfg s = (Inr client, s1)" and "bind client s1 = (Inr bound, s2)"
  shows "bracket lib cfg bind action dflt s =
           (case (if errors s2 = [] then action client s2 else (Inr dflt, s2)) of
              (Inl e, s3) \<Rightarrow> (Inl e, s3)
            | (Inr r, s3) \<Rightarrow>
                (case unbind_if lib client bound s3 of
                   (Inl e, s4) \<Rightarrow> (Inl e, s4)
                 | (Inr u, s4) \<Rightarrow> (Inr r, s4)))"
    and "after_bind lib cfg bind s = s2"
    and "after_action lib cfg bind action s = (if errors s2 = [] then snd (action client s2) else s2)"
  using assms by (simp_all add: bracket_def after_bind_def after_action_def)

lemma bracket_init_escape:
  assumes "ldap_init_default lib cfg s = (Inl e, s1)"
  shows "bracket lib cfg bind action dflt s = (Inl e, s1)"
    and "after_bind lib cfg bind s = s1"
    and "after_action lib cfg bind action s = s1"
  using assms by (simp_all add: bracket_def after_bind_def after_action_def)

lemma bracket_bind_escape:
  assumes "ldap_init_default lib cfg s = (Inr client, s1)" and "bind client s1 = (Inl e, s2)"
  shows "bracket lib cfg bind action dflt s = (Inl e, s2)"
    and "after_bind lib cfg bind s = s2"
    and "after_action lib cfg bind action s = s2"
  using assms by (simp_all add: bracket_def after_bind_def after_action_def)

lemma filter_unbind_sub:
  "filter (\<lambda>c. c = UnbindS) (filter is_unbind xs) = filter (\<lambda>c. c = UnbindS) xs"
  by (induction xs) auto

text \<open>When the closing part of an operation made a call, the bind had succeeded.\<close>

lemma bracket_closing_calls:
  assumes "new_calls (after_action lib cfg bind action s) (snd (bracket lib cfg bind action dflt s)) \<noteq> []"
  shows "\<exists>client s1 s2. ldap_init_default lib cfg s = (Inr client, s1)
           \<and> bind client s1 = (Inr True, s2)"
proof -
  obtain ri s1 where i: "ldap_init_default lib cfg s = (ri, s1)" by force
  show ?thesis
  proof (cases ri)
    case (Inl e)
    with i assms show ?thesis by (simp add: bracket_init_escape)
  next
    case (Inr client)
    obtain rb s2 where b: "bind client s1 = (rb, s2)" by force
    show ?thesis
    proof (cases rb)
      case (Inl e)
      with i Inr b assms show ?thesis by (simp add: bracket_bind_escape)
    next
      case (Inr bound)
      note m1 = bracket_main(1)[where bind = bind and action = action and dflt = dflt,
          OF i[unfolded \<open>ri = Inr client\<close>] b[unfolded Inr]]
      note m3 = bracket_main(3)[where bind = bind and action = action,
          OF i[unfolded \<open>ri = Inr client\<close>] b[unfolded Inr]]
      obtain ra s3 where a: "(if errors s2 = [] then action client s2 else (Inr dflt, s2)) = (ra, s3)"
        by force
      have s3: "(if errors s2 = [] then snd (action client s2) else s2) = s3"
        using a by (auto split: if_splits)
      have "bound"
      proof (rule ccontr)
        assume "\<not> bound"
        then have "snd (bracket lib cfg bind action dflt s) = s3"
          unfolding m1 a by (cases ra) (simp_all add: unbind_if_def)
        with assms show False unfolding m3 s3 by simp
      qed
      with i \<open>ri = Inr client\<close> b Inr show ?thesis by simp
    qed
  qed
qed

lemma bracket_unbinds:
  assumes B: "\<And>c t r t'. bind c t = (r, t') \<Longrightarrow> grows is_bind t t'"
    and A: "\<And>c t r t'. action c t = (r, t') \<Longrightarrow> grows is_action t t'"
    and N: "\<And>t r t'. bind None t = (r, t') \<Longrightarrow> r = Inr False \<and> t' = t"
  shows "UnbindS \<in> set (new_calls s (snd (bracket lib cfg bind action dflt s))) \<Longrightarrow>
           \<exists>obj s1 s2. ldap_init_default lib cfg s = (Inr (Some obj), s1)
             \<and> bind (Some obj) s1 = (Inr True, s2)"
    and "ldap_init_default lib cfg s = (Inr (Some obj), s1) \<Longrightarrow>
         bind (Some obj) s1 = (Inr True, s2) \<Longrightarrow>
         fst (bracket lib cfg bind action dflt s) = Inr x \<Longrightarrow>
           filter (\<lambda>c. c = UnbindS) (new_calls s (snd (bracket lib cfg bind action dflt s)))
             = [UnbindS]"
proof -
  note f = bracket_filter(4)[where bind = bind and action = action and s = s and lib = lib
      and cfg = cfg and dflt = dflt, OF B A]
  {
    assume "UnbindS \<in> set (new_calls s (snd (bracket lib cfg bind action dflt s)))"
    then have "UnbindS \<in> set (filter is_unbind (new_calls s (snd (bracket lib cfg bind action dflt s))))"
      by simp
    then have "UnbindS \<in> set (new_calls (after_action lib cfg bind action s)
                 (snd (bracket lib cfg bind action dflt s)))"
      by (simp only: f)
    then have ne: "new_calls (after_action lib cfg bind action s)
                 (snd (bracket lib cfg bind action dflt s)) \<noteq> []"
      by auto
    obtain client s1 s2 where i: "ldap_init_default lib cfg s = (Inr client, s1)"
      and b: "bind client s1 = (Inr True, s2)"
      using bracket_closing_calls[OF ne] by blast
    from b N have "client \<noteq> None" by (cases client) auto
    with i b show "\<exists>obj s1 s2. ldap_init_default lib cfg s = (Inr (Some obj), s1)
             \<and> bind (Some obj) s1 = (Inr True, s2)" by auto
  }
  {
    assume i: "ldap_init_default lib cfg s = (Inr (Some obj), s1)"
      and b: "bind (Some obj) s1 = (Inr True, s2)"
      and r: "fst (bracket lib cfg bind action dflt s) = Inr x"
    note m1 = bracket_main(1)[where bind = bind and action = action and dflt = dflt, OF i b]
    note m3 = bracket_main(3)[where bind = bind and action = action, OF i b]
    obtain ra s3 where a: "(if errors s2 = [] then action (Some obj) s2 else (Inr dflt, s2)) = (ra, s3)"
      by force
    have s3: "(if errors s2 = [] then snd (action (Some obj) s2) else s2) = s3"
      using a by (auto split: if_splits)
    obtain ru s4 where u: "ldap_unbind lib (Some obj) s3 = (ru, s4)" by force
    from r have fin: "snd (bracket lib cfg bind action dflt s) = s4"
      unfolding m1 a using u by (cases ra; cases ru) (simp_all add: unbind_if_def)
    have e1: "filter is_unbind (new_calls s s4) = new_calls s3 s4"
      using f unfolding m3 s3 fin .
    have "filter (\<lambda>c. c = UnbindS) (new_calls s s4) =
          filter (\<lambda>c. c = UnbindS) (filter is_unbind (new_calls s s4))"
      by (rule filter_unbind_sub[symmetric])
    also have "\<dots> = filter (\<lambda>c. c = UnbindS) (new_calls s3 s4)"
      by (simp only: e1)
    finally have "filter (\<lambda>c. c = UnbindS) (new_calls s (snd (bracket lib cfg bind action dflt s))) =
          filter (\<lambda>c. c = UnbindS) (new_calls s3 s4)"
      unfolding fin .
    then show "filter (\<lambda>c. c = UnbindS) (new_calls s (snd (bracket lib cfg bind action dflt s)))
             = [UnbindS]"
      using ldap_unbind_calls[OF u] by simp
  }
qed

lemma bind_of_grows: "bind_of lib cfg op c t = (r, t') \<Longrightarrow> grows is_bind t t'"
  by (cases op) (auto dest: grows_bind_default grows_bind_for_pwd)

lemma bind_of_None: "bind_of lib cfg op None t = (r, t') \<Longrightarrow> r = Inr False \<and> t' = t"
  by (cases op) (auto dest: bind_default_None bind_for_pwd_None)

lemma after_action_calls:
  assumes "\<And>c t. new_calls t (snd (action c t)) = (case c of None \<Rightarrow> [] | Some obj \<Rightarrow> [k])"
  shows "new_calls (after_bind lib cfg bind s) (after_action lib cfg bind action s) = [] \<or>
         new_calls (after_bind lib cfg bind s) (after_action lib cfg bind action s) = [k]"
  by (auto simp: after_bind_def after_action_def assms split: prod.splits sum.splits option.splits)

lemma writes_of_actions:
  assumes "filter is_action xs = ys"
  shows "filter is_write xs = filter is_write ys"
proof -
  have "filter is_write xs = filter is_write (filter is_action xs)"
    by (rule filter_write_action[symmetric])
  then show ?thesis by (simp only: assms)
qed

lemma ldap_search_actions:
  "filter is_action (new_calls s (snd (ldap_search lib cfg b a sc f ao s))) = [] \<or>
   filter is_action (new_calls s (snd (ldap_search lib cfg b a sc f ao s))) = [search_call b a sc f ao]"
proof -
  have f: "filter is_action (new_calls s (snd (bracket lib cfg (bind_default lib cfg)
               (\<lambda>c. search_action lib c b a sc f ao) None s))) =
           new_calls (after_bind lib cfg (bind_default lib cfg) s)
             (after_action lib cfg (bind_default lib cfg) (\<lambda>c. search_action lib c b a sc f ao) s)"
    by (rule bracket_filter(3)[OF grows_bind_default grows_search_action])
  show ?thesis
    unfolding ldap_search_bracket f
    by (rule after_action_calls) (rule search_action_calls)
qed

lemma ldap_search_no_write:
  "filter is_write (new_calls s (snd (ldap_search lib cfg b a sc f ao s))) = []"
proof -
  from ldap_search_actions[of s lib cfg b a sc f ao] show ?thesis
  proof
    assume "filter is_action (new_calls s (snd (ldap_search lib cfg b a sc f ao s))) = []"
    from writes_of_actions[OF this] show ?thesis by simp
  next
    assume "filter is_action (new_calls s (snd (ldap_search lib cfg b a sc f ao s))) =
              [search_call b a sc f ao]"
    from writes_of_actions[OF this] show ?thesis by (simp add: search_call_def)
  qed
qed

lemma ldap_search_grows: "grows (\<lambda>c. True) s (snd (ldap_search lib cfg b a sc f ao s))"
  unfolding ldap_search_bracket
  by (rule bracket_filter(6)[OF grows_bind_default grows_search_action])

lemma ldap_modify_entry_writes:
  "filter is_write (new_calls s (snd (ldap_modify_entry lib cfg dn ml s))) = [] \<or>
   filter is_write (new_calls s (snd (ldap_modify_entry lib cfg dn ml s))) = [ModifyS dn ml]"
proof -
  have f: "filter is_action (new_calls s (snd (bracket lib cfg (bind_default lib cfg)
               (\<lambda>c. modify_action lib c dn ml) () s))) =
           new_calls (after_bind lib cfg (bind_default lib cfg) s)
             (after_action lib cfg (bind_default lib cfg) (\<lambda>c. modify_action lib c dn ml) s)"
    by (rule bracket_filter(3)[OF grows_bind_default grows_modify_action])
  have "filter is_action (new_calls s (snd (ldap_modify_entry lib cfg dn ml s))) = [] \<or>
        filter is_action (new_calls s (snd (ldap_modify_entry lib cfg dn ml s))) = [ModifyS dn ml]"
    unfolding ldap_modify_entry_bracket f
    by (rule after_action_calls) (rule modify_action_calls)
  then show ?thesis
  proof
    assume "filter is_action (new_calls s (snd (ldap_modify_entry lib cfg dn ml s))) = []"
    from writes_of_actions[OF this] show ?thesis by simp
  next
    assume "filter is_action (new_calls s (snd (ldap_modify_entry lib cfg dn ml s))) = [ModifyS dn ml]"
    from writes_of_actions[OF this] show ?thesis by simp
  qed
qed

lemma ldap_modify_entry_grows: "grows (\<lambda>c. True) s (snd (ldap_modify_entry lib cfg dn ml s))"
  unfolding ldap_modify_entry_bracket
  by (rule bracket_filter(6)[OF grows_bind_default grows_modify_action])

lemma opened_default:
  assumes "ldap_init_default lib cfg s = (Inr client, s1)"
    and "bind_default lib cfg client s1 = (Inr bound, s2)" and "errors s2 = []"
  shows "\<exists>obj. client = Some obj \<and> obj_uri obj = LDAP_SERVER_URI cfg" and "bound"
proof -
  have c: "client \<noteq> None"
  proof
    assume "client = None"
    with assms(1) have "errors s1 \<noteq> []" by (auto dest: init_default_None)
    with assms(2,3) show False
      using grows_errors_nonempty[OF grows_bind_default[OF assms(2)]] by simp
  qed
  then obtain obj where o: "client = Some obj" by auto
  with assms(1) show "\<exists>obj. client = Some obj \<and> obj_uri obj = LDAP_SERVER_URI cfg"
    by (auto dest: init_default_uri)
  show "bound"
  proof (rule ccontr)
    assume "\<not> bound"
    with assms(2) o have "errors s2 \<noteq> []" by (auto dest: bind_default_False)
    with assms(3) show False by simp
  qed
qed

lemma search_action_quiet:
  "raises lib (trace s) (search_call b a sc f ao) = None \<Longrightarrow>
   search_action lib (Some obj) b a sc f ao s =
     (Inr (Some (search_s lib (trace s) (search_call b a sc f ao))),
      s\<lparr>trace := trace s @ [search_call b a sc f ao]\<rparr>)"
  by (simp add: search_action_def method_call_def invoke_def Let_def)

lemma ldap_search_main:
  assumes "ldap_init_default lib cfg s = (Inr client, s1)"
    and "bind_default lib cfg client s1 = (Inr bound, s2)" and "errors s2 = []"
    and "raises lib (trace s2) (search_call b a sc f ao) = None"
  shows "ldap_search lib cfg b a sc f ao s =
     (case ldap_unbind lib client (s2\<lparr>trace := trace s2 @ [search_call b a sc f ao]\<rparr>) of
        (Inl e, s4) \<Rightarrow> (Inl e, s4)
      | (Inr u, s4) \<Rightarrow> (Inr (Some (search_s lib (trace s2) (search_call b a sc f ao))), s4))"
proof -
  obtain obj where o: "client = Some obj" using opened_default(1)[OF assms(1-3)] by blast
  have bd: "bound" by (rule opened_default(2)[OF assms(1-3)])
  show ?thesis
    using assms o bd
    by (simp add: ldap_search_def search_action_quiet unbind_if_def)
qed


section \<open>Evaluating the example worlds\<close>

lemmas run_defs = ldap_init_default_def ldap_init_def open_trace_def configure_def
  bind_default_def bind_for_pwd_def ldap_bind_def ldap_unbind_def unbind_if_def
  method_call_def invoke_def err_def handler_def handled_def outcome_def
  ldap_add_entry_def add_action_def ldap_modify_entry_def modify_action_def
  ldap_delete_entry_def delete_action_def ldap_search_def search_action_def search_call_def
  ldap_change_pwd_def pwd_action_def is_secure_def user_search_def
  example_cfg_def secure_cfg_def quiet_lib_def raising_lib_def refused_def start_def
  example_client_def init_calls_def admin_bind_def new_calls_def Let_def

lemma init_quiet:
  "ldap_init_default (quiet_lib found) example_cfg start =
     (Inr (Some example_client), \<lparr>errors = [], trace = init_calls\<rparr>)"
  by (simp add: run_defs)

lemma init_refusing:
  "ldap_init_default (raising_lib is_bind refused found) example_cfg start =
     (Inr (Some example_client), \<lparr>errors = [], trace = init_calls\<rparr>)"
  by (simp add: run_defs)

lemma bind_quiet:
  "bind_default (quiet_lib found) example_cfg (Some example_client) \<lparr>errors = [], trace = init_calls\<rparr> =
     (Inr True, \<lparr>errors = [], trace = init_calls @ [admin_bind]\<rparr>)"
  by (simp add: run_defs)

lemma unbind_quiet:
  "ldap_unbind (quiet_lib found) (Some example_client) \<lparr>errors = [], trace = init_calls @ [admin_bind, k]\<rparr> =
     (Inr (), \<lparr>errors = [], trace = init_calls @ [admin_bind, k, UnbindS, TraceClose]\<rparr>)"
  by (simp add: run_defs)

section \<open>The claims\<close>

text \<open>
  C3. When the search of \<^verbatim>\<open>ldap_modify_user\<close> (filter \<^verbatim>\<open>cn=<user_id>\<close>, one level under
  \<^verbatim>\<open>cn=users,<base>\<close>) returns and yields no entry, the function returns normally, the
  not-found message is appended to the error list as the search left it, and no call
  that writes to the directory is made: the only action call there can be is that
  search.
\<close>

theorem modify_user_not_found:
  assumes "user_search lib cfg user_id attrs s = (Inr search_data, s1)"
    and "\<not> py_truthy search_data"
  shows "fst (ldap_modify_user lib cfg user_id attrs s) = Inr ()
       \<and> errors (snd (ldap_modify_user lib cfg user_id attrs s)) = errors s1 @ [not_found_msg user_id]
       \<and> prefix (errors s) (errors s1)
       \<and> filter is_write (new_calls s (snd (ldap_modify_user lib cfg user_id attrs s))) = []
       \<and> set (filter is_action (new_calls s (snd (ldap_modify_user lib cfg user_id attrs s))))
           \<subseteq> {SearchS (''cn=users,'' @ py_format (LDAP_BASE_DN cfg)) SCOPE_ONELEVEL
                  (''cn='' @ user_id) (map fst attrs) 0}"
proof -
  have m: "ldap_modify_user lib cfg user_id attrs s = (Inr (), err (not_found_msg user_id) s1)"
    using assms by (cases search_data) (simp_all add: ldap_modify_user_def err_def)
  have s1: "s1 = snd (ldap_search lib cfg (''cn=users,'' @ py_format (LDAP_BASE_DN cfg)) (map fst attrs)
       (Some SCOPE_ONELEVEL) (Some (''cn='' @ user_id)) False s)"
    using assms(1) by (simp add: user_search_def)
  have w: "filter is_write (new_calls s s1) = []"
    unfolding s1 by (rule ldap_search_no_write)
  have p: "prefix (errors s) (errors s1)"
    unfolding s1 by (rule grows_errors[OF ldap_search_grows])
  have a: "set (filter is_action (new_calls s s1))
           \<subseteq> {SearchS (''cn=users,'' @ py_format (LDAP_BASE_DN cfg)) SCOPE_ONELEVEL
                  (''cn='' @ user_id) (map fst attrs) 0}"
  proof -
    have c: "search_call (''cn=users,'' @ py_format (LDAP_BASE_DN cfg)) (map fst attrs)
               (Some SCOPE_ONELEVEL) (Some (''cn='' @ user_id)) False =
             SearchS (''cn=users,'' @ py_format (LDAP_BASE_DN cfg)) SCOPE_ONELEVEL
                  (''cn='' @ user_id) (map fst attrs) 0"
      by (simp add: search_call_def SCOPE_ONELEVEL_def)
    from ldap_search_actions[of s lib cfg "''cn=users,'' @ py_format (LDAP_BASE_DN cfg)"
        "map fst attrs" "Some SCOPE_ONELEVEL" "Some (''cn='' @ user_id)" False]
    show ?thesis
      unfolding s1 c
    proof
      assume e: "filter is_action (new_calls s (snd (ldap_search lib cfg
          (''cn=users,'' @ py_format (LDAP_BASE_DN cfg)) (map fst attrs)
          (Some SCOPE_ONELEVEL) (Some (''cn='' @ user_id)) False s))) = []"
      show "set (filter is_action (new_calls s (snd (ldap_search lib cfg
          (''cn=users,'' @ py_format (LDAP_BASE_DN cfg)) (map fst attrs)
          (Some SCOPE_ONELEVEL) (Some (''cn='' @ user_id)) False s))))
        \<subseteq> {SearchS (''cn=users,'' @ py_format (LDAP_BASE_DN cfg)) SCOPE_ONELEVEL
                  (''cn='' @ user_id) (map fst attrs) 0}"
        by (simp only: e) simp
    next
      assume e: "filter is_action (new_calls s (snd (ldap_search lib cfg
          (''cn=users,'' @ py_format (LDAP_BASE_DN cfg)) (map fst attrs)
          (Some SCOPE_ONELEVEL) (Some (''cn='' @ user_id)) False s))) =
          [SearchS (''cn=users,'' @ py_format (LDAP_BASE_DN cfg)) SCOPE_ONELEVEL
                  (''cn='' @ user_id) (map fst attrs) 0]"
      show "set (filter is_action (new_calls s (snd (ldap_search lib cfg
          (''cn=users,'' @ py_format (LDAP_BASE_DN cfg)) (map fst attrs)
          (Some SCOPE_ONELEVEL) (Some (''cn='' @ user_id)) False s))))
        \<subseteq> {SearchS (''cn=users,'' @ py_format (LDAP_BASE_DN cfg)) SCOPE_ONELEVEL
                  (''cn='' @ user_id) (map fst attrs) 0}"
        by (simp only: e) simp
    qed
  qed
  have e: "errors (err (not_found_msg user_id) s1) = errors s1 @ [not_found_msg user_id]"
    by (simp add: err_def)
  have n: "new_calls s (err (not_found_msg user_id) s1) = new_calls s s1"
    by simp
  show ?thesis
    unfolding m fst_conv snd_conv n
    using w p a e by blast
qed

theorem modify_user_not_found_witness:
  "errors (snd (ldap_modify_user (quiet_lib []) example_cfg ''bob'' [(''mail'', Some ''bob@x.com'')] start))
     = [not_found_msg ''bob'']
   \<and> filter is_write (new_calls start
        (snd (ldap_modify_user (quiet_lib []) example_cfg ''bob'' [(''mail'', Some ''bob@x.com'')] start))) = []"
proof -
  have u: "user_search (quiet_lib []) example_cfg ''bob'' [(''mail'', Some ''bob@x.com'')] start =
      (Inr (Some []),
       snd (user_search (quiet_lib []) example_cfg ''bob'' [(''mail'', Some ''bob@x.com'')] start))"
    by (simp add: run_defs)
  have h: "\<not> py_truthy (Some ([] :: search_data))" by simp
  have e: "errors (snd (user_search (quiet_lib []) example_cfg ''bob''
       [(''mail'', Some ''bob@x.com'')] start)) = []"
    by (simp add: run_defs)
  show ?thesis
    using modify_user_not_found[OF u h] e by simp
qed

text \<open>
  C4, as amended. For each of the five directory operations (add, modify, delete, search,
  change password): \<^verbatim>\<open>unbind_s\<close> is called only when \<^verbatim>\<open>ldap_init\<close> gave a client object
  and the bind the operation performs succeeded; and when they did and the operation
  returns (no exception leaves it), \<^verbatim>\<open>unbind_s\<close> is called exactly once, whatever the
  action step recorded. After a bind that fails, or with no client object, there is no
  unbind. The statement is silent on the runs an exception leaves after a successful
  bind (from \<^verbatim>\<open>addModlist\<close>, or from \<^verbatim>\<open>__ldap_except_msg\<close> inside a handler): there the
  last statement of the operation is not reached.
\<close>

theorem unbind_iff_bound:
  assumes "is_directory_op op"
  shows "(UnbindS \<in> set (new_calls s (snd (run lib cfg op s))) \<longrightarrow>
            (\<exists>obj s1 s2. ldap_init_default lib cfg s = (Inr (Some obj), s1)
               \<and> bind_of lib cfg op (Some obj) s1 = (Inr True, s2)))
       \<and> (\<forall>obj s1 s2. ldap_init_default lib cfg s = (Inr (Some obj), s1)
               \<and> bind_of lib cfg op (Some obj) s1 = (Inr True, s2)
               \<and> fst (run lib cfg op s) = None \<longrightarrow>
            filter (\<lambda>c. c = UnbindS) (new_calls s (snd (run lib cfg op s))) = [UnbindS])"
proof (cases op)
  case (AddEntry dn attrs)
  have b: "bind_of lib cfg op = bind_default lib cfg" using AddEntry by (intro ext) simp
  note u = bracket_unbinds[where bind = "bind_default lib cfg" and action = "\<lambda>c. add_action lib c dn attrs" and s = s and lib = lib
      and cfg = cfg and dflt = "()", OF grows_bind_default grows_add_action bind_default_None]
  show ?thesis
    unfolding b unfolding AddEntry run.simps ldap_add_entry_bracket
    using u by auto
next
  case (ModifyEntry dn ml)
  have b: "bind_of lib cfg op = bind_default lib cfg" using ModifyEntry by (intro ext) simp
  note u = bracket_unbinds[where bind = "bind_default lib cfg" and action = "\<lambda>c. modify_action lib c dn ml" and s = s and lib = lib
      and cfg = cfg and dflt = "()", OF grows_bind_default grows_modify_action bind_default_None]
  show ?thesis
    unfolding b unfolding ModifyEntry run.simps ldap_modify_entry_bracket
    using u by auto
next
  case (DeleteEntry dn)
  have b: "bind_of lib cfg op = bind_default lib cfg" using DeleteEntry by (intro ext) simp
  note u = bracket_unbinds[where bind = "bind_default lib cfg" and action = "\<lambda>c. delete_action lib c dn" and s = s and lib = lib
      and cfg = cfg and dflt = "()", OF grows_bind_default grows_delete_action bind_default_None]
  show ?thesis
    unfolding b unfolding DeleteEntry run.simps ldap_delete_entry_bracket
    using u by auto
next
  case (Search ba a sc f ao)
  have b: "bind_of lib cfg op = bind_default lib cfg" using Search by (intro ext) simp
  note u = bracket_unbinds[where bind = "bind_default lib cfg" and action = "\<lambda>c. search_action lib c ba a sc f ao" and s = s and lib = lib
      and cfg = cfg and dflt = "None", OF grows_bind_default grows_search_action bind_default_None]
  show ?thesis
    unfolding b unfolding Search run.simps ldap_search_bracket
    using u by auto
next
  case (ChangePwd u new old)
  have b: "bind_of lib cfg op = bind_for_pwd lib cfg u old" using ChangePwd by (intro ext) simp
  note ub = bracket_unbinds[where bind = "bind_for_pwd lib cfg u old" and action = "\<lambda>c. pwd_action lib c u new old" and s = s and lib = lib
      and cfg = cfg and dflt = "None", OF grows_bind_for_pwd grows_pwd_action bind_for_pwd_None]
  show ?thesis
    unfolding b unfolding ChangePwd run.simps ldap_change_pwd_bracket
    using ub by auto
qed (use assms in simp_all)

theorem unbind_iff_bound_witness:
  "filter (\<lambda>c. c = UnbindS)
     (new_calls start (snd (run (quiet_lib []) example_cfg (DeleteEntry ''uid=bob,dc=example'') start)))
     = [UnbindS]"
proof -
  have d: "is_directory_op (DeleteEntry ''uid=bob,dc=example'')" by simp
  have b: "bind_of (quiet_lib []) example_cfg (DeleteEntry ''uid=bob,dc=example'')
             (Some example_client) \<lparr>errors = [], trace = init_calls\<rparr> =
           (Inr True, \<lparr>errors = [], trace = init_calls @ [admin_bind]\<rparr>)"
    by (simp add: run_defs)
  have r: "fst (run (quiet_lib []) example_cfg (DeleteEntry ''uid=bob,dc=example'') start) = None"
    by (simp add: run_defs del: fst_outcome)
  show ?thesis
    using unbind_iff_bound[OF d, of start "quiet_lib []" example_cfg] init_quiet[of "[]"] b r
    by blast
qed

text \<open>
  C4 as stated fails: with a client object obtained and a bind attempted that the server
  refuses, \<^verbatim>\<open>ldap_delete_entry\<close> returns without calling \<^verbatim>\<open>unbind_s\<close>.
\<close>

theorem unbind_after_failed_bind_counterexample:
  "ldap_init_default (raising_lib is_bind refused []) example_cfg start =
     (Inr (Some example_client), \<lparr>errors = [], trace = init_calls\<rparr>)
   \<and> admin_bind \<in> set (trace (snd (ldap_delete_entry (raising_lib is_bind refused []) example_cfg
          ''uid=bob,dc=example'' start)))
   \<and> fst (ldap_delete_entry (raising_lib is_bind refused []) example_cfg
          ''uid=bob,dc=example'' start) = Inr ()
   \<and> UnbindS \<notin> set (trace (snd (ldap_delete_entry (raising_lib is_bind refused []) example_cfg
          ''uid=bob,dc=example'' start)))"
  by (simp add: run_defs)

text \<open>
  C9, as amended. \<^verbatim>\<open>ldap_change_pwd\<close> binds once when a client object was obtained, and
  not at all otherwise. The bind is made with the user's DN and the current password
  when a current password is supplied and is not the empty string; with no current
  password, or an empty one, it is made with the default credentials of the
  configuration.
\<close>

theorem change_pwd_bind:
  assumes "ldap_init_default lib cfg s = (r, s1)"
  shows "filter is_bind (new_calls s (snd (ldap_change_pwd lib cfg user_dn new_pwd curr_pwd s))) =
           (case r of
              Inl e \<Rightarrow> []
            | Inr None \<Rightarrow> []
            | Inr (Some obj) \<Rightarrow>
                [if curr_pwd \<noteq> None \<and> curr_pwd \<noteq> Some []
                 then SimpleBindS (Some user_dn) curr_pwd
                 else SimpleBindS (LDAP_BIND_DN cfg) (LDAP_BIND_PWD cfg)])"
proof -
  have t: "py_truthy curr_pwd = (curr_pwd \<noteq> None \<and> curr_pwd \<noteq> Some [])"
    by (cases curr_pwd) simp_all
  have f: "filter is_bind (new_calls s (snd (ldap_change_pwd lib cfg user_dn new_pwd curr_pwd s))) =
        new_calls s1 (after_bind lib cfg (bind_for_pwd lib cfg user_dn curr_pwd) s)"
    unfolding ldap_change_pwd_bracket
    using bracket_filter(2)[where bind = "bind_for_pwd lib cfg user_dn curr_pwd"
        and action = "\<lambda>c. pwd_action lib c user_dn new_pwd curr_pwd" and s = s and lib = lib
        and cfg = cfg and dflt = None, OF grows_bind_for_pwd grows_pwd_action] assms
    by simp
  show ?thesis
  proof (cases r)
    case (Inl e)
    with assms show ?thesis unfolding f by (simp add: after_bind_def)
  next
    case (Inr client)
    show ?thesis
    proof (cases client)
      case None
      with Inr assms show ?thesis
        unfolding f by (simp add: after_bind_def bind_for_pwd_def)
    next
      case (Some obj)
      with Inr assms show ?thesis
        unfolding f
        using bind_for_pwd_calls[OF surjective_pairing, where lib = lib and cfg = cfg
            and u = user_dn and p = curr_pwd and obj = obj and s = s1] t
        by (simp add: after_bind_def)
    qed
  qed
qed

theorem change_pwd_bind_witness:
  "filter is_bind (new_calls start (snd (ldap_change_pwd (quiet_lib []) example_cfg
       ''uid=alice,dc=example'' ''newpass123'' (Some ''oldpass'') start)))
     = [SimpleBindS (Some ''uid=alice,dc=example'') (Some ''oldpass'')]
   \<and> filter is_bind (new_calls start (snd (ldap_change_pwd (quiet_lib []) example_cfg
       ''uid=alice,dc=example'' ''newpass123'' None start)))
     = [SimpleBindS (Some ''cn=admin,dc=example,dc=com'') (Some ''secret'')]"
  using change_pwd_bind[OF init_quiet[of "[]"], where user_dn = "''uid=alice,dc=example''"
      and new_pwd = "''newpass123''" and curr_pwd = "Some ''oldpass''"]
    change_pwd_bind[OF init_quiet[of "[]"], where user_dn = "''uid=alice,dc=example''"
      and new_pwd = "''newpass123''" and curr_pwd = None]
  by (simp add: example_cfg_def)

text \<open>
  C9 as stated fails for a current password that is supplied but empty: the test is
  \<^verbatim>\<open>if curr_pwd:\<close>, so the bind uses the default credentials and none is made as the
  user.
\<close>

theorem empty_current_password_counterexample:
  "filter is_bind (new_calls start (snd (ldap_change_pwd (quiet_lib []) example_cfg
       ''uid=alice,dc=example'' ''newpass123'' (Some '''') start)))
     = [SimpleBindS (Some ''cn=admin,dc=example,dc=com'') (Some ''secret'')]
   \<and> SimpleBindS (Some ''uid=alice,dc=example'') (Some '''')
       \<notin> set (trace (snd (ldap_change_pwd (quiet_lib []) example_cfg
       ''uid=alice,dc=example'' ''newpass123'' (Some '''') start)))"
  by (simp add: run_defs MOD_REPLACE_def)




text \<open>
  C8. When the search of \<^verbatim>\<open>ldap_get_value_list\<close> (base scope, filter
  \<^verbatim>\<open>(objectClass=*)\<close>, the one attribute, values asked for) is reached, does not raise and
  the unbind returns, the function returns the values the library gave for the attribute
  in the first entry found, all of them and in that order, and \<^verbatim>\<open>ldap_get_value\<close>
  returns the first of them, or \<^verbatim>\<open>None\<close> when the attribute is absent, its list is
  empty or no entry was found. In every run \<^verbatim>\<open>ldap_get_value\<close> gives the first element
  of what \<^verbatim>\<open>ldap_get_value_list\<close> gives, \<^verbatim>\<open>None\<close> for an absent or empty list, and
  leaves the same state.
\<close>

theorem get_value_first:
  "(ldap_init_default lib cfg s = (Inr client, si)
      \<and> bind_default lib cfg client si = (Inr bound, sb) \<and> errors sb = []
      \<and> c = SearchS entry_dn SCOPE_BASE ''(objectClass=*)'' [attr] 0
      \<and> raises lib (trace sb) c = None
      \<and> search_s lib (trace sb) c = found
      \<and> ldap_unbind lib client (sb\<lparr>trace := trace sb @ [c]\<rparr>) = (Inr (), sf)
    \<longrightarrow> ldap_get_value_list lib cfg entry_dn attr s =
          (Inr (case found of [] \<Rightarrow> None | (dn, user_data) # rest \<Rightarrow> user_data attr), sf)
      \<and> ldap_get_value lib cfg entry_dn attr s =
          (Inr (case found of
                  [] \<Rightarrow> None
                | (dn, user_data) # rest \<Rightarrow>
                    (case user_data attr of
                       None \<Rightarrow> None
                     | Some [] \<Rightarrow> None
                     | Some (x # xs) \<Rightarrow> Some x)), sf))
   \<and> ldap_get_value lib cfg entry_dn attr s =
       (case ldap_get_value_list lib cfg entry_dn attr s of
          (Inl e, s') \<Rightarrow> (Inl e, s')
        | (Inr None, s') \<Rightarrow> (Inr None, s')
        | (Inr (Some []), s') \<Rightarrow> (Inr None, s')
        | (Inr (Some (x # xs)), s') \<Rightarrow> (Inr (Some x), s'))"
proof (intro conjI impI)
  show "ldap_get_value lib cfg entry_dn attr s =
       (case ldap_get_value_list lib cfg entry_dn attr s of
          (Inl e, s') \<Rightarrow> (Inl e, s')
        | (Inr None, s') \<Rightarrow> (Inr None, s')
        | (Inr (Some []), s') \<Rightarrow> (Inr None, s')
        | (Inr (Some (x # xs)), s') \<Rightarrow> (Inr (Some x), s'))"
    by (simp add: ldap_get_value_def split: prod.splits sum.splits option.splits list.splits)
next
  assume h: "ldap_init_default lib cfg s = (Inr client, si)
      \<and> bind_default lib cfg client si = (Inr bound, sb) \<and> errors sb = []
      \<and> c = SearchS entry_dn SCOPE_BASE ''(objectClass=*)'' [attr] 0
      \<and> raises lib (trace sb) c = None
      \<and> search_s lib (trace sb) c = found
      \<and> ldap_unbind lib client (sb\<lparr>trace := trace sb @ [c]\<rparr>) = (Inr (), sf)"
  from h have h1: "ldap_init_default lib cfg s = (Inr client, si)"
    and h2: "bind_default lib cfg client si = (Inr bound, sb)" and h3: "errors sb = []"
    and h4: "c = SearchS entry_dn SCOPE_BASE ''(objectClass=*)'' [attr] 0"
    and h5: "raises lib (trace sb) c = None"
    and h6: "search_s lib (trace sb) c = found"
    and h7: "ldap_unbind lib client (sb\<lparr>trace := trace sb @ [c]\<rparr>) = (Inr (), sf)"
    by blast+
  have c: "search_call entry_dn [attr] None None False = c"
    unfolding h4 by (simp add: search_call_def)
  have r: "raises lib (trace sb) (search_call entry_dn [attr] None None False) = None"
    unfolding c by (rule h5)
  have sr: "ldap_search lib cfg entry_dn [attr] None None False s = (Inr (Some found), sf)"
    unfolding ldap_search_main[OF h1 h2 h3 r] c h6 h7 by simp
  show gl: "ldap_get_value_list lib cfg entry_dn attr s =
          (Inr (case found of [] \<Rightarrow> None | (dn, user_data) # rest \<Rightarrow> user_data attr), sf)"
    by (simp add: ldap_get_value_list_def sr split: list.splits)
  show "ldap_get_value lib cfg entry_dn attr s =
          (Inr (case found of
                  [] \<Rightarrow> None
                | (dn, user_data) # rest \<Rightarrow>
                    (case user_data attr of
                       None \<Rightarrow> None
                     | Some [] \<Rightarrow> None
                     | Some (x # xs) \<Rightarrow> Some x)), sf)"
    by (simp add: ldap_get_value_def gl split: list.splits option.splits)
qed

theorem get_value_first_witness:
  "fst (ldap_get_value_list (quiet_lib [(''uid=alice,dc=example'', alice_entry)]) example_cfg
         ''uid=alice,dc=example'' ''mail'' start) = Inr (Some [''a'', ''b'', ''c''])
   \<and> fst (ldap_get_value (quiet_lib [(''uid=alice,dc=example'', alice_entry)]) example_cfg
         ''uid=alice,dc=example'' ''mail'' start) = Inr (Some ''a'')
   \<and> fst (ldap_get_value (quiet_lib [(''uid=alice,dc=example'', alice_entry)]) example_cfg
         ''uid=alice,dc=example'' ''cn'' start) = Inr (Some ''Alice'')
   \<and> fst (ldap_get_value (quiet_lib [(''uid=alice,dc=example'', alice_entry)]) example_cfg
         ''uid=alice,dc=example'' ''photo'' start) = Inr None
   \<and> fst (ldap_get_value (quiet_lib [(''uid=alice,dc=example'', alice_entry)]) example_cfg
         ''uid=alice,dc=example'' ''fax'' start) = Inr None
   \<and> fst (ldap_get_value (quiet_lib []) example_cfg
         ''uid=alice,dc=example'' ''mail'' start) = Inr None"
proof -
  let ?L = "quiet_lib [(''uid=alice,dc=example'', alice_entry)]"
  have q: "raises (quiet_lib found) h k = None" "search_s (quiet_lib found) h k = found" for found h k
    by (simp_all add: quiet_lib_def)
  note th = get_value_first[where s = start and cfg = example_cfg
      and client = "Some example_client" and si = "\<lparr>errors = [], trace = init_calls\<rparr>"
      and bound = True and sb = "\<lparr>errors = [], trace = init_calls @ [admin_bind]\<rparr>"
      and entry_dn = "''uid=alice,dc=example''", THEN conjunct1, rule_format]
  have m: "ldap_get_value_list ?L example_cfg ''uid=alice,dc=example'' ''mail'' start =
      (Inr (alice_entry ''mail''), \<lparr>errors = [], trace = init_calls @ [admin_bind,
         SearchS ''uid=alice,dc=example'' SCOPE_BASE ''(objectClass=*)'' [''mail''] 0,
         UnbindS, TraceClose]\<rparr>)"
    using th[where lib = ?L and attr = "''mail''" and found = "[(''uid=alice,dc=example'', alice_entry)]",
        THEN conjunct1]
      init_quiet bind_quiet unbind_quiet q by simp
  have v: "ldap_get_value ?L example_cfg ''uid=alice,dc=example'' a start =
      (Inr (case alice_entry a of None \<Rightarrow> None | Some [] \<Rightarrow> None | Some (x # xs) \<Rightarrow> Some x),
       \<lparr>errors = [], trace = init_calls @ [admin_bind,
         SearchS ''uid=alice,dc=example'' SCOPE_BASE ''(objectClass=*)'' [a] 0,
         UnbindS, TraceClose]\<rparr>)" for a
    using th[where lib = ?L and attr = a and found = "[(''uid=alice,dc=example'', alice_entry)]",
        THEN conjunct2]
      init_quiet bind_quiet unbind_quiet q by simp
  have n: "ldap_get_value (quiet_lib []) example_cfg ''uid=alice,dc=example'' ''mail'' start =
      (Inr None, \<lparr>errors = [], trace = init_calls @ [admin_bind,
         SearchS ''uid=alice,dc=example'' SCOPE_BASE ''(objectClass=*)'' [''mail''] 0,
         UnbindS, TraceClose]\<rparr>)"
    using th[where lib = "quiet_lib []" and attr = "''mail''" and found = "[]", THEN conjunct2]
      init_quiet bind_quiet unbind_quiet q by simp
  show ?thesis
    unfolding m v n by (simp add: alice_entry_def)
qed

end
